theory Spec2Isabelle
  imports Main "HOL-Library.Multiset"
begin

section \<open>Data model\<close>

text \<open>
  The relations of the storage (\<^verbatim>\<open>lib/types.ts\<close> and the migrations). Identifiers are
  UUID strings, timestamps are counted in microseconds. A column \<^verbatim>\<open>x\<close> of the table
  \<^verbatim>\<open>users\<close>, \<^verbatim>\<open>posts\<close>, \<^verbatim>\<open>likes\<close>, \<^verbatim>\<open>comments\<close> is the field \<open>u_x\<close>, \<open>p_x\<close>,
  \<open>l_x\<close>, \<open>c_x\<close>. Of \<^verbatim>\<open>users\<close> only the four columns the handlers select are kept.
  Identifiers, names and captions are only compared and tested for emptiness. The
  content of a comment is measured and trimmed, so it is a JavaScript string as the
  code sees it: the list of its UTF-16 code units.
\<close>

type_synonym uuid = string
type_synonym timestamp = int
type_synonym js_string = "nat list"

record user =
  u_id :: uuid
  u_clerk_id :: string
  u_name :: string
  u_created_at :: timestamp

record post =
  p_id :: uuid
  p_user_id :: uuid
  p_image_url :: string
  p_caption :: "string option"
  p_created_at :: timestamp
  p_updated_at :: timestamp

record like =
  l_id :: uuid
  l_post_id :: uuid
  l_user_id :: uuid
  l_created_at :: timestamp

record comment =
  c_id :: uuid
  c_post_id :: uuid
  c_user_id :: uuid
  c_content :: js_string
  c_created_at :: timestamp
  c_updated_at :: timestamp

text \<open>\<^verbatim>\<open>CommentWithUser extends Comment\<close> and \<^verbatim>\<open>PostWithDetails extends Post\<close>.\<close>

record comment_with_user = comment +
  cu_user :: user

record post_with_details = post +
  pd_user :: user
  likes_count :: int
  comments_count :: int
  is_liked :: bool
  comments_preview :: "comment_with_user list"

section \<open>HTTP responses\<close>

text \<open>
  The JSON bodies the route handlers produce; of an error body only the \<^verbatim>\<open>error\<close>
  field is kept, of a success body the record it carries. \<open>NotJson\<close> is a body that
  \<^verbatim>\<open>response.json()\<close> rejects: no handler of the repository produces it, a client can
  still receive it from the transport.
\<close>

datatype body =
  ErrorBody string
  | LikeBody like
  | SuccessBody
  | PostsBody "post_with_details list" int
  | CommentBody comment "user option"
  | NotJson

datatype response = Response (status: int) (body: body)

datatype fetch_result = Rejected | Received response

definition ok :: "response \<Rightarrow> bool" where
  "ok r = (200 \<le> status r \<and> status r \<le> 299)"

datatype request = AddLike uuid | RemoveLike uuid

section \<open>The storage adapter\<close>

text \<open>
  The Supabase client is an external collaborator. It is modelled as a reachable
  relational store that enforces the constraints the migrations declare; each table is
  the list of its rows in the order the storage scans them. Every call on the client
  is one primitive below, and every primitive records the access in \<open>accesses\<close>, so
  that a handler that leaves the store as it was has made no call at all.
\<close>

datatype table = Users | Posts | Likes | Comments

datatype access = Read table | Write table

record store =
  users :: "user list"
  posts :: "post list"
  likes :: "like list"
  comments :: "comment list"
  accesses :: "access list"

datatype pg_error = PgError (code: string)

definition touch :: "access \<Rightarrow> store \<Rightarrow> store" where
  "touch a s = s\<lparr>accesses := accesses s @ [a]\<rparr>"

text \<open>\<^verbatim>\<open>.single()\<close>: exactly one row, otherwise an error.\<close>

definition single :: "'a list \<Rightarrow> pg_error + 'a" where
  "single rows = (case rows of [r] \<Rightarrow> Inr r | _ \<Rightarrow> Inl (PgError ''PGRST116''))"

definition select_users :: "(user \<Rightarrow> bool) \<Rightarrow> store \<Rightarrow> user list \<times> store" where
  "select_users P s = (filter P (users s), touch (Read Users) s)"

definition select_posts :: "(post \<Rightarrow> bool) \<Rightarrow> store \<Rightarrow> post list \<times> store" where
  "select_posts P s = (filter P (posts s), touch (Read Posts) s)"

definition select_likes :: "(like \<Rightarrow> bool) \<Rightarrow> store \<Rightarrow> like list \<times> store" where
  "select_likes P s = (filter P (likes s), touch (Read Likes) s)"

definition select_comments :: "(comment \<Rightarrow> bool) \<Rightarrow> store \<Rightarrow> comment list \<times> store" where
  "select_comments P s = (filter P (comments s), touch (Read Comments) s)"

text \<open>
  \<^verbatim>\<open>.order("created_at", { ascending: false })\<close>: the rows by descending creation
  time and nothing else; rows with equal timestamps stay in the order the storage
  scanned them. \<^verbatim>\<open>.range(from, to)\<close> asks for the offset \<open>from\<close> and the limit
  \<open>to - from + 1\<close>: the rows at the positions \<open>from\<close> to \<open>to\<close>, both included. The
  storage refuses a negative offset and a negative limit. \<^verbatim>\<open>.limit(n)\<close> keeps the
  first \<open>n\<close> rows.
\<close>

definition order_created_at_desc :: "('a \<Rightarrow> timestamp) \<Rightarrow> 'a list \<Rightarrow> 'a list" where
  "order_created_at_desc created_at rows = sort_key (\<lambda>r. - created_at r) rows"

definition range_rows :: "int \<Rightarrow> int \<Rightarrow> 'a list \<Rightarrow> pg_error + 'a list" where
  "range_rows from to rows =
     (if from < 0 then Inl (PgError ''2201X'')
      else if to - from + 1 < 0 then Inl (PgError ''2201W'')
      else Inr (take (nat (to - from + 1)) (drop (nat from) rows)))"

text \<open>The embedded resource \<^verbatim>\<open>user:users!..._user_id_fkey (...)\<close>: the referenced row or null.\<close>

definition embed_user :: "store \<Rightarrow> uuid \<Rightarrow> user option" where
  "embed_user s uid = find (\<lambda>u. u_id u = uid) (users s)"

text \<open>
  \<^verbatim>\<open>insert\<close> into \<^verbatim>\<open>likes\<close>: the primary key and
  \<^verbatim>\<open>CONSTRAINT likes_unique_post_user UNIQUE (post_id, user_id)\<close> fail with code 23505,
  the two foreign keys with 23503.
\<close>

definition insert_like :: "like \<Rightarrow> store \<Rightarrow> (pg_error + like) \<times> store" where
  "insert_like row s =
     (let s1 = touch (Write Likes) s in
      if l_id row \<in> set (map l_id (likes s)) then (Inl (PgError ''23505''), s1)
      else if (l_post_id row, l_user_id row) \<in> set (map (\<lambda>l. (l_post_id l, l_user_id l)) (likes s))
        then (Inl (PgError ''23505''), s1)
      else if l_post_id row \<notin> set (map p_id (posts s)) \<or> l_user_id row \<notin> set (map u_id (users s))
        then (Inl (PgError ''23503''), s1)
      else (Inr row, s1\<lparr>likes := likes s @ [row]\<rparr>))"

definition delete_likes :: "(like \<Rightarrow> bool) \<Rightarrow> store \<Rightarrow> store" where
  "delete_likes P s = (touch (Write Likes) s)\<lparr>likes := filter (\<lambda>l. \<not> P l) (likes s)\<rparr>"

text \<open>
  \<^verbatim>\<open>insert\<close> into \<^verbatim>\<open>comments\<close>: primary key, the two foreign keys, and
  \<^verbatim>\<open>CONSTRAINT comments_content_length CHECK (LENGTH(content) <= 1000)\<close> (code 23514).
  \<^verbatim>\<open>LENGTH\<close> counts characters, so a surrogate pair counts once.
\<close>

fun code_points :: "js_string \<Rightarrow> nat" where
  "code_points [] = 0"
| "code_points [u] = 1"
| "code_points (u # v # rest) =
     (if 0xD800 \<le> u \<and> u \<le> 0xDBFF \<and> 0xDC00 \<le> v \<and> v \<le> 0xDFFF
      then Suc (code_points rest)
      else Suc (code_points (v # rest)))"

definition insert_comment :: "comment \<Rightarrow> store \<Rightarrow> (pg_error + comment) \<times> store" where
  "insert_comment row s =
     (let s1 = touch (Write Comments) s in
      if c_id row \<in> set (map c_id (comments s)) then (Inl (PgError ''23505''), s1)
      else if c_post_id row \<notin> set (map p_id (posts s)) \<or> c_user_id row \<notin> set (map u_id (users s))
        then (Inl (PgError ''23503''), s1)
      else if code_points (c_content row) > 1000 then (Inl (PgError ''23514''), s1)
      else (Inr row, s1\<lparr>comments := comments s @ [row]\<rparr>))"

section \<open>Requests\<close>

text \<open>
  A field of a JSON request body: missing, a string, or a value of another type. A body
  that \<^verbatim>\<open>request.json()\<close> rejects, or that cannot be destructured, is \<open>None\<close>.
\<close>

datatype 'a field = Absent | Str 'a | Other

text \<open>\<^verbatim>\<open>!x || typeof x !== "string"\<close> is false exactly for a non-empty string.\<close>

definition nonempty_string :: "'a list field \<Rightarrow> 'a list option" where
  "nonempty_string f = (case f of Str x \<Rightarrow> (if x = [] then None else Some x) | _ \<Rightarrow> None)"

text \<open>\<^verbatim>\<open>auth()\<close> gives the Clerk id of the caller; \<^verbatim>\<open>!clerkUserId\<close> also rejects the empty id.\<close>

definition authenticated :: "string option \<Rightarrow> string option" where
  "authenticated clerkUserId =
     (case clerkUserId of None \<Rightarrow> None | Some c \<Rightarrow> (if c = [] then None else Some c))"

text \<open>
  \<^verbatim>\<open>String.prototype.trim\<close> removes the white space and line terminators of ECMAScript
  from both ends: TAB, LF, VT, FF, CR, SP, NBSP, the other space separators of Unicode,
  LS, PS and the byte order mark.
\<close>

definition is_space :: "nat \<Rightarrow> bool" where
  "is_space u =
     (u \<in> set [0x0009, 0x000A, 0x000B, 0x000C, 0x000D, 0x0020, 0x00A0, 0x1680,
                0x2028, 0x2029, 0x202F, 0x205F, 0x3000, 0xFEFF]
      \<or> (0x2000 \<le> u \<and> u \<le> 0x200A))"

definition trim :: "js_string \<Rightarrow> js_string" where
  "trim x = rev (dropWhile is_space (rev (dropWhile is_space x)))"

section \<open>Likes (\<^verbatim>\<open>app/api/likes/route.ts\<close>, \<^verbatim>\<open>app/api/likes/[postId]/route.ts\<close>)\<close>

text \<open>
  \<^verbatim>\<open>POST /api/likes\<close>. \<open>new_id\<close> and \<open>now\<close> are what \<^verbatim>\<open>gen_random_uuid()\<close> and
  \<^verbatim>\<open>now()\<close> give the inserted row.
\<close>

definition POST_likes ::
    "string option \<Rightarrow> string field option \<Rightarrow> uuid \<Rightarrow> timestamp \<Rightarrow> store
      \<Rightarrow> response \<times> store" where
  "POST_likes clerkUserId request_body new_id now s =
     (case authenticated clerkUserId of
        None \<Rightarrow> (Response 401 (ErrorBody ''Unauthorized''), s)
      | Some clerk \<Rightarrow>
     (case request_body of
        None \<Rightarrow> (Response 500 (ErrorBody ''Internal server error''), s)
      | Some post_id_field \<Rightarrow>
     (case nonempty_string post_id_field of
        None \<Rightarrow> (Response 400 (ErrorBody ''post_id is required''), s)
      | Some post_id \<Rightarrow>
     (case select_users (\<lambda>u. u_clerk_id u = clerk) s of (user_rows, s1) \<Rightarrow>
     (case single user_rows of
        Inl userError \<Rightarrow> (Response 404 (ErrorBody ''User not found''), s1)
      | Inr userData \<Rightarrow>
     (case select_posts (\<lambda>p. p_id p = post_id) s1 of (post_rows, s2) \<Rightarrow>
     (case single post_rows of
        Inl postError \<Rightarrow> (Response 404 (ErrorBody ''Post not found''), s2)
      | Inr postData \<Rightarrow>
     (case insert_like
             \<lparr>l_id = new_id, l_post_id = post_id, l_user_id = u_id userData, l_created_at = now\<rparr>
             s2 of
        (Inl likeError, s3) \<Rightarrow>
          if code likeError = ''23505''
          then (Response 409 (ErrorBody ''Already liked''), s3)
          else (Response 500 (ErrorBody ''Failed to add like''), s3)
      | (Inr likeData, s3) \<Rightarrow> (Response 200 (LikeBody likeData), s3)))))))))"

text \<open>\<^verbatim>\<open>DELETE /api/likes/[postId]\<close>.\<close>

definition DELETE_likes :: "string option \<Rightarrow> string \<Rightarrow> store \<Rightarrow> response \<times> store" where
  "DELETE_likes clerkUserId postId s =
     (case authenticated clerkUserId of
        None \<Rightarrow> (Response 401 (ErrorBody ''Unauthorized''), s)
      | Some clerk \<Rightarrow>
     if postId = [] then (Response 400 (ErrorBody ''postId is required''), s)
     else
     (case select_users (\<lambda>u. u_clerk_id u = clerk) s of (user_rows, s1) \<Rightarrow>
     (case single user_rows of
        Inl userError \<Rightarrow> (Response 404 (ErrorBody ''User not found''), s1)
      | Inr userData \<Rightarrow>
     (case select_likes (\<lambda>l. l_post_id l = postId \<and> l_user_id l = u_id userData) s1 of
        (like_rows, s2) \<Rightarrow>
     (case single like_rows of
        Inl likeCheckError \<Rightarrow> (Response 404 (ErrorBody ''Like not found''), s2)
      | Inr likeData \<Rightarrow>
     if l_user_id likeData \<noteq> u_id userData then (Response 403 (ErrorBody ''Forbidden''), s2)
     else (Response 200 SuccessBody, delete_likes (\<lambda>l. l_id l = l_id likeData) s2))))))"

section \<open>The feed page (\<^verbatim>\<open>app/api/posts/route.ts\<close>)\<close>

text \<open>
  The posts query:
  \<^verbatim>\<open>from("posts").select("*, user:users!posts_user_id_fkey (...)")
    .order("created_at", { ascending: false }).range(offset, offset + limit - 1)\<close>.
\<close>

definition posts_query ::
    "int \<Rightarrow> int \<Rightarrow> store \<Rightarrow> (pg_error + (post \<times> user option) list) \<times> store" where
  "posts_query offset limit s =
     (case select_posts (\<lambda>p. True) s of (rows, s1) \<Rightarrow>
        (case range_rows offset (offset + limit - 1) (order_created_at_desc p_created_at rows) of
           Inl postsError \<Rightarrow> (Inl postsError, s1)
         | Inr page \<Rightarrow> (Inr (map (\<lambda>p. (p, embed_user s (p_user_id p))) page), s1)))"

text \<open>
  The preview query of one post:
  \<^verbatim>\<open>from("comments").select("*, user:users!comments_user_id_fkey (...)")
    .eq("post_id", postId).order("created_at", { ascending: false }).limit(2)\<close>.
\<close>

definition preview_query :: "uuid \<Rightarrow> store \<Rightarrow> (comment \<times> user option) list \<times> store" where
  "preview_query postId s =
     (case select_comments (\<lambda>c. c_post_id c = postId) s of (rows, s1) \<Rightarrow>
        (map (\<lambda>c. (c, embed_user s (c_user_id c)))
           (take 2 (order_created_at_desc c_created_at rows)),
         s1))"

text \<open>The loop \<^verbatim>\<open>for (const postId of postIds)\<close> that fills \<^verbatim>\<open>commentsPreviewMap\<close>.\<close>

fun comments_previews ::
    "uuid list \<Rightarrow> (uuid \<rightharpoonup> (comment \<times> user option) list) \<Rightarrow> store
      \<Rightarrow> (uuid \<rightharpoonup> (comment \<times> user option) list) \<times> store" where
  "comments_previews [] commentsPreviewMap s = (commentsPreviewMap, s)"
| "comments_previews (postId # rest) commentsPreviewMap s =
     (case preview_query postId s of (commentsPreview, s1) \<Rightarrow>
        comments_previews rest (commentsPreviewMap(postId \<mapsto> commentsPreview)) s1)"

text \<open>The \<^verbatim>\<open>forEach\<close> loops that fill \<^verbatim>\<open>likesCountMap\<close> and \<^verbatim>\<open>commentsCountMap\<close>.\<close>

definition count_by_post :: "uuid list \<Rightarrow> (uuid \<rightharpoonup> int)" where
  "count_by_post post_ids =
     fold (\<lambda>post_id m. m(post_id \<mapsto> (case m post_id of None \<Rightarrow> 0 | Some n \<Rightarrow> n) + 1))
       post_ids Map.empty"

text \<open>
  The callbacks that build the result. Reading a field of a null \<^verbatim>\<open>user\<close> throws a
  TypeError, which is \<open>None\<close> here and the 500 of the \<^verbatim>\<open>catch\<close> block in the handler.
\<close>

definition preview_comment :: "comment \<times> user option \<Rightarrow> comment_with_user option" where
  "preview_comment row =
     (case row of
        (comment, None) \<Rightarrow> None
      | (comment, Some u) \<Rightarrow>
          Some \<lparr>c_id = c_id comment, c_post_id = c_post_id comment, c_user_id = c_user_id comment,
                c_content = c_content comment, c_created_at = c_created_at comment,
                c_updated_at = c_updated_at comment,
                cu_user = \<lparr>u_id = u_id u, u_clerk_id = u_clerk_id u, u_name = u_name u,
                           u_created_at = u_created_at u\<rparr>\<rparr>)"

definition post_details ::
    "(uuid \<rightharpoonup> int) \<Rightarrow> (uuid \<rightharpoonup> int) \<Rightarrow> uuid option \<Rightarrow> uuid list
      \<Rightarrow> (uuid \<rightharpoonup> (comment \<times> user option) list) \<Rightarrow> post \<times> user option
      \<Rightarrow> post_with_details option" where
  "post_details likesCountMap commentsCountMap currentUserId userLikes commentsPreviewMap row =
     (case row of
        (post, None) \<Rightarrow> None
      | (post, Some u) \<Rightarrow>
          let likesCount = (case likesCountMap (p_id post) of None \<Rightarrow> 0 | Some n \<Rightarrow> n);
              commentsCount = (case commentsCountMap (p_id post) of None \<Rightarrow> 0 | Some n \<Rightarrow> n);
              isLiked = (case currentUserId of
                           None \<Rightarrow> False
                         | Some uid \<Rightarrow> if uid = [] then False else p_id post \<in> set userLikes);
              commentsPreview = (case commentsPreviewMap (p_id post) of None \<Rightarrow> [] | Some cs \<Rightarrow> cs)
          in (case those (map preview_comment commentsPreview) of
                None \<Rightarrow> None
              | Some preview \<Rightarrow>
                  Some \<lparr>p_id = p_id post, p_user_id = p_user_id post, p_image_url = p_image_url post,
                        p_caption = p_caption post, p_created_at = p_created_at post,
                        p_updated_at = p_updated_at post,
                        pd_user = \<lparr>u_id = u_id u, u_clerk_id = u_clerk_id u, u_name = u_name u,
                                   u_created_at = u_created_at u\<rparr>,
                        likes_count = likesCount, comments_count = commentsCount,
                        is_liked = isLiked, comments_preview = preview\<rparr>))"

text \<open>
  The viewer of \<^verbatim>\<open>GET /api/posts\<close>: \<^verbatim>\<open>currentUserId\<close> stays null when nobody is signed in
  or the Clerk id has no row in \<^verbatim>\<open>users\<close>.
\<close>

definition current_user_id :: "string option \<Rightarrow> store \<Rightarrow> uuid option \<times> store" where
  "current_user_id clerkUserId s =
     (case authenticated clerkUserId of
        None \<Rightarrow> (None, s)
      | Some clerk \<Rightarrow>
          (case select_users (\<lambda>u. u_clerk_id u = clerk) s of (user_rows, s1) \<Rightarrow>
             (case single user_rows of
                Inl userError \<Rightarrow> (None, s1)
              | Inr userData \<Rightarrow> (Some (u_id userData), s1))))"

text \<open>\<^verbatim>\<open>userLikes\<close>: the posts of the page the viewer likes, asked only for a viewer.\<close>

definition user_likes :: "uuid option \<Rightarrow> uuid list \<Rightarrow> store \<Rightarrow> uuid list \<times> store" where
  "user_likes currentUserId postIds s =
     (case currentUserId of
        None \<Rightarrow> ([], s)
      | Some uid \<Rightarrow>
          if uid = [] then ([], s)
          else (case select_likes (\<lambda>l. l_user_id l = uid \<and> l_post_id l \<in> set postIds) s of
                  (userLikesData, s1) \<Rightarrow> (map l_post_id userLikesData, s1)))"

text \<open>
  \<^verbatim>\<open>GET /api/posts?limit=..&offset=..\<close>. A query parameter is \<open>None\<close> when it is missing
  or empty and otherwise the integer \<^verbatim>\<open>parseInt\<close> reads; parameters that are not
  numbers are not modelled.
\<close>

definition GET_posts ::
    "string option \<Rightarrow> int option \<Rightarrow> int option \<Rightarrow> store \<Rightarrow> response \<times> store" where
  "GET_posts clerkUserId limit_param offset_param s =
     (let limit = (case limit_param of None \<Rightarrow> 10 | Some n \<Rightarrow> n);
          offset = (case offset_param of None \<Rightarrow> 0 | Some n \<Rightarrow> n)
      in
      case current_user_id clerkUserId s of (currentUserId, s1) \<Rightarrow>
      case posts_query offset limit s1 of
        (Inl postsError, s2) \<Rightarrow> (Response 500 (ErrorBody ''Failed to fetch posts''), s2)
      | (Inr page, s2) \<Rightarrow>
      if page = [] then (Response 200 (PostsBody [] 0), s2)
      else
        let postIds = map (\<lambda>row. p_id (fst row)) page in
        case select_likes (\<lambda>l. l_post_id l \<in> set postIds) s2 of (likesData, s3) \<Rightarrow>
        case select_comments (\<lambda>c. c_post_id c \<in> set postIds) s3 of (commentsData, s4) \<Rightarrow>
        case user_likes currentUserId postIds s4 of (userLikes, s5) \<Rightarrow>
        case comments_previews postIds Map.empty s5 of (commentsPreviewMap, s6) \<Rightarrow>
        let likesCountMap = count_by_post (map l_post_id likesData);
            commentsCountMap = count_by_post (map c_post_id commentsData)
        in
        case those (map (post_details likesCountMap commentsCountMap currentUserId userLikes
                           commentsPreviewMap) page) of
          None \<Rightarrow> (Response 500 (ErrorBody ''Internal server error''), s6)
        | Some postsWithDetails \<Rightarrow>
            (Response 200 (PostsBody postsWithDetails (int (length postsWithDetails))), s6))"

text \<open>
  The rows the two ordered queries return, as functions of the tables; for the posts
  query, when the storage accepts the range.
\<close>

definition page_rows :: "store \<Rightarrow> int \<Rightarrow> int \<Rightarrow> post list" where
  "page_rows s from_row page_size =
     take (nat page_size) (drop (nat from_row) (order_created_at_desc p_created_at (posts s)))"

definition preview_rows :: "store \<Rightarrow> uuid \<Rightarrow> comment list" where
  "preview_rows s postId =
     take 2 (order_created_at_desc c_created_at (filter (\<lambda>c. c_post_id c = postId) (comments s)))"

text \<open>The page with its embedded users, the preview map and the answer built from them.\<close>

definition page_with_users :: "store \<Rightarrow> int \<Rightarrow> int \<Rightarrow> (post \<times> user option) list" where
  "page_with_users s from_row page_size =
     map (\<lambda>p. (p, embed_user s (p_user_id p))) (page_rows s from_row page_size)"

definition previews_of :: "store \<Rightarrow> uuid list \<Rightarrow> (uuid \<rightharpoonup> (comment \<times> user option) list)" where
  "previews_of s postIds =
     (\<lambda>postId. if postId \<in> set postIds
                then Some (map (\<lambda>c. (c, embed_user s (c_user_id c))) (preview_rows s postId))
                else None)"

definition page_response ::
    "(uuid \<rightharpoonup> int) \<Rightarrow> (uuid \<rightharpoonup> int) \<Rightarrow> uuid option \<Rightarrow> uuid list \<Rightarrow> store
      \<Rightarrow> (post \<times> user option) list \<Rightarrow> response" where
  "page_response lm cm cur ul s page =
     (if page = [] then Response 200 (PostsBody [] 0)
      else (case those (map (post_details lm cm cur ul
                               (previews_of s (map (\<lambda>row. p_id (fst row)) page))) page) of
              None \<Rightarrow> Response 500 (ErrorBody ''Internal server error'')
            | Some postsWithDetails \<Rightarrow>
                Response 200 (PostsBody postsWithDetails (int (length postsWithDetails)))))"

section \<open>Comments (\<^verbatim>\<open>app/api/comments/route.ts\<close>)\<close>

text \<open>
  \<^verbatim>\<open>POST /api/comments\<close>. The body carries \<^verbatim>\<open>post_id\<close> and \<^verbatim>\<open>content\<close>; \<open>new_id\<close> and
  \<open>now\<close> are what \<^verbatim>\<open>gen_random_uuid()\<close> and \<^verbatim>\<open>now()\<close> give the inserted row. The error
  messages of this handler are Korean in the source and are translated here.
\<close>

definition POST_comments ::
    "string option \<Rightarrow> (string field \<times> js_string field) option \<Rightarrow> uuid \<Rightarrow> timestamp
      \<Rightarrow> store \<Rightarrow> response \<times> store" where
  "POST_comments clerkUserId request_body new_id now s =
     (case authenticated clerkUserId of
        None \<Rightarrow> (Response 401 (ErrorBody ''Authentication is required.''), s)
      | Some clerk \<Rightarrow>
     (case request_body of
        None \<Rightarrow> (Response 500 (ErrorBody ''Internal server error''), s)
      | Some (post_id_field, content_field) \<Rightarrow>
     (case nonempty_string post_id_field of
        None \<Rightarrow> (Response 400 (ErrorBody ''post_id is required.''), s)
      | Some post_id \<Rightarrow>
     (case nonempty_string content_field of
        None \<Rightarrow> (Response 400 (ErrorBody ''The comment needs a content.''), s)
      | Some content \<Rightarrow>
     if length (trim content) = 0 then (Response 400 (ErrorBody ''The comment needs a content.''), s)
     else if length content > 1000
       then (Response 400 (ErrorBody ''A comment has at most 1000 characters.''), s)
     else
     (case select_users (\<lambda>u. u_clerk_id u = clerk) s of (user_rows, s1) \<Rightarrow>
     (case single user_rows of
        Inl userError \<Rightarrow> (Response 404 (ErrorBody ''The user was not found.''), s1)
      | Inr userData \<Rightarrow>
     (case select_posts (\<lambda>p. p_id p = post_id) s1 of (post_rows, s2) \<Rightarrow>
     (case single post_rows of
        Inl postError \<Rightarrow> (Response 404 (ErrorBody ''The post was not found.''), s2)
      | Inr postData \<Rightarrow>
     (case insert_comment
             \<lparr>c_id = new_id, c_post_id = post_id, c_user_id = u_id userData,
              c_content = trim content, c_created_at = now, c_updated_at = now\<rparr>
             s2 of
        (Inl commentError, s3) \<Rightarrow> (Response 500 (ErrorBody ''Writing the comment failed.''), s3)
      | (Inr commentData, s3) \<Rightarrow>
     (case select_comments (\<lambda>c. c_id c = c_id commentData) s3 of (comment_rows, s4) \<Rightarrow>
     (case single comment_rows of
        Inl joinError \<Rightarrow> (Response 201 (CommentBody commentData None), s4)
      | Inr commentWithUser \<Rightarrow>
     (case embed_user s4 (c_user_id commentWithUser) of
        None \<Rightarrow> (Response 500 (ErrorBody ''Internal server error''), s4)
      | Some u \<Rightarrow>
          (Response 201
             (CommentBody commentWithUser
                (Some \<lparr>u_id = u_id u, u_clerk_id = u_clerk_id u, u_name = u_name u,
                       u_created_at = u_created_at u\<rparr>)),
           s4)))))))))))))"

section \<open>The feed (\<^verbatim>\<open>components/post/PostFeed.tsx\<close>)\<close>

record feed_state =
  feed_posts :: "post_with_details list"
  loading :: bool
  error :: "string option"
  hasLoaded :: bool
  offset :: int
  hasMore :: bool
  isLoadingMore :: bool

definition POSTS_PER_PAGE :: int where
  "POSTS_PER_PAGE = 10"

definition PostFeed :: feed_state where
  "PostFeed = \<lparr>feed_posts = [], loading = True, error = None, hasLoaded = False, offset = 0,
               hasMore = True, isLoadingMore = False\<rparr>"

text \<open>\<^verbatim>\<open>fetchPosts\<close> up to its \<^verbatim>\<open>await fetch\<close>.\<close>

text \<open>The parameter \<^verbatim>\<open>append\<close> is \<open>is_append\<close>.\<close>

definition fetchPosts_begin :: "bool \<Rightarrow> feed_state \<Rightarrow> feed_state" where
  "fetchPosts_begin is_append f =
     (if is_append then f\<lparr>isLoadingMore := True\<rparr>
      else f\<lparr>loading := True, error := None, hasLoaded := False\<rparr>)"

text \<open>
  What the \<^verbatim>\<open>try\<close> block reads from the response: the message of the error it throws, or
  \<^verbatim>\<open>postsArray\<close> and \<^verbatim>\<open>total\<close> (here \<open>total_field\<close>).
\<close>

definition read_page :: "fetch_result \<Rightarrow> string + (post_with_details list \<times> int)" where
  "read_page res =
     (case res of
        Rejected \<Rightarrow> Inl ''fetch failed''
      | Received r \<Rightarrow>
          if body r = NotJson then Inl ''invalid json''
          else if \<not> ok r then
            Inl (case body r of
                   ErrorBody e \<Rightarrow> if e = [] then ''failed to load posts'' else e
                 | _ \<Rightarrow> ''failed to load posts'')
          else (case body r of
                  PostsBody postsArray total_field \<Rightarrow> Inr (postsArray, total_field)
                | _ \<Rightarrow> Inr ([], 0)))"

text \<open>The rest of \<^verbatim>\<open>fetchPosts(currentOffset, append)\<close>, once the fetch has settled.\<close>

definition fetchPosts_settle :: "int \<Rightarrow> bool \<Rightarrow> fetch_result \<Rightarrow> feed_state \<Rightarrow> feed_state" where
  "fetchPosts_settle currentOffset is_append res f =
     (let f1 =
        (case read_page res of
           Inl message \<Rightarrow>
             f\<lparr>error := Some message, hasLoaded := (if is_append then hasLoaded f else True)\<rparr>
         | Inr (postsArray, total_field) \<Rightarrow>
             let newOffset = currentOffset + int (length postsArray);
                 hasMoreData =
                   (if total_field > 0
                    then newOffset < total_field \<and> int (length postsArray) = POSTS_PER_PAGE
                    else int (length postsArray) = POSTS_PER_PAGE)
             in f\<lparr>feed_posts := (if is_append then feed_posts f @ postsArray else postsArray),
                  hasMore := hasMoreData,
                  offset := newOffset,
                  hasLoaded := (if is_append then hasLoaded f else True)\<rparr>)
      in f1\<lparr>loading := False, isLoadingMore := False\<rparr>)"

text \<open>
  One page fetch of the feed against the route handler:
  \<^verbatim>\<open>fetch(`/api/posts?limit=${POSTS_PER_PAGE}&offset=${currentOffset}`)\<close>.
\<close>

definition fetchPosts ::
    "string option \<Rightarrow> int \<Rightarrow> bool \<Rightarrow> store \<Rightarrow> feed_state \<Rightarrow> feed_state \<times> store" where
  "fetchPosts viewer currentOffset is_append s f =
     (case GET_posts viewer (Some POSTS_PER_PAGE) (Some currentOffset) s of
        (r, s') \<Rightarrow> (fetchPosts_settle currentOffset is_append (Received r) (fetchPosts_begin is_append f), s'))"

section \<open>The post card (\<^verbatim>\<open>components/post/PostCard.tsx\<close>)\<close>

record card_state =
  isLiked :: bool
  likesCount :: int
  isAnimating :: bool
  isLoading :: bool
  showDoubleTapHeart :: bool
  lastTapTime :: int
  commentsCount :: int
  commentsPreview :: "comment_with_user list"


record like_snapshot =
  previousIsLiked :: bool
  previousLikesCount :: int

text \<open>
  \<^verbatim>\<open>handleLikeClick\<close> up to its \<^verbatim>\<open>await fetch\<close>: nothing when a request is in flight,
  otherwise the snapshot it keeps, the request it sends and the state after the
  optimistic update.
\<close>

definition handleLikeClick_begin ::
    "uuid \<Rightarrow> card_state \<Rightarrow> (like_snapshot \<times> request \<times> card_state) option" where
  "handleLikeClick_begin post_id st =
     (if isLoading st then None
      else Some
        (\<lparr>previousIsLiked = isLiked st, previousLikesCount = likesCount st\<rparr>,
         (if \<not> isLiked st then AddLike post_id else RemoveLike post_id),
         st\<lparr>isLiked := \<not> isLiked st,
            likesCount := (if isLiked st then likesCount st - 1 else likesCount st + 1),
            isAnimating := True,
            isLoading := True\<rparr>))"

text \<open>
  Whether control reaches the \<^verbatim>\<open>catch\<close> block: \<^verbatim>\<open>fetch\<close> rejected, or the response
  is not ok and either its body does not parse or the handler throws. Only the add
  path returns early on 409.
\<close>

definition like_request_throws :: "request \<Rightarrow> fetch_result \<Rightarrow> bool" where
  "like_request_throws req res =
     (case res of
        Rejected \<Rightarrow> True
      | Received r \<Rightarrow>
          if ok r then False
          else if body r = NotJson then True
          else (case req of
                  AddLike _ \<Rightarrow> status r \<noteq> 409
                | RemoveLike _ \<Rightarrow> True))"

text \<open>The rest of \<^verbatim>\<open>handleLikeClick\<close>, run on the state current when the fetch settles.\<close>

definition handleLikeClick_settle ::
    "like_snapshot \<Rightarrow> request \<Rightarrow> fetch_result \<Rightarrow> card_state \<Rightarrow> card_state" where
  "handleLikeClick_settle snap req res st =
     (let st1 = (if like_request_throws req res
                 then st\<lparr>isLiked := previousIsLiked snap,
                         likesCount := previousLikesCount snap\<rparr>
                 else st)
      in st1\<lparr>isLoading := False\<rparr>)"

definition handleLikeClick :: "uuid \<Rightarrow> fetch_result \<Rightarrow> card_state \<Rightarrow> card_state" where
  "handleLikeClick post_id res st =
     (case handleLikeClick_begin post_id st of
        None \<Rightarrow> st
      | Some (snap, req, st1) \<Rightarrow> handleLikeClick_settle snap req res st1)"

text \<open>
  \<^verbatim>\<open>handleImageClick\<close> at \<^verbatim>\<open>Date.now() = currentTime\<close>: the request it sends, if any, with
  the snapshot kept for it, and the next state. The timers that end the animations
  (\<open>isAnimating\<close>, \<open>showDoubleTapHeart\<close>) are left out.
\<close>

definition handleImageClick ::
    "uuid \<Rightarrow> int \<Rightarrow> card_state \<Rightarrow> (like_snapshot \<times> request) option \<times> card_state" where
  "handleImageClick post_id currentTime st =
     (if isLiked st \<or> isLoading st then (None, st)
      else
        let timeDiff = currentTime - lastTapTime st in
        if timeDiff < 300 \<and> timeDiff > 0 then
          (Some (\<lparr>previousIsLiked = isLiked st, previousLikesCount = likesCount st\<rparr>,
                 AddLike post_id),
           st\<lparr>showDoubleTapHeart := True,
              isLiked := True,
              likesCount := likesCount st + 1,
              isLoading := True,
              lastTapTime := 0\<rparr>)
        else (None, st\<lparr>lastTapTime := currentTime\<rparr>))"

text \<open>The \<^verbatim>\<open>then\<close>/\<^verbatim>\<open>catch\<close>/\<^verbatim>\<open>finally\<close> chain of the double-tap request.\<close>

definition handleImageClick_settle ::
    "like_snapshot \<Rightarrow> fetch_result \<Rightarrow> card_state \<Rightarrow> card_state" where
  "handleImageClick_settle snap res st =
     (let st1 = (case res of
                   Rejected \<Rightarrow>
                     st\<lparr>isLiked := previousIsLiked snap, likesCount := previousLikesCount snap\<rparr>
                 | Received r \<Rightarrow>
                     if ok r then st
                     else if body r = NotJson then
                       st\<lparr>isLiked := previousIsLiked snap, likesCount := previousLikesCount snap\<rparr>
                     else if status r = 409 then st
                     else
                       st\<lparr>isLiked := previousIsLiked snap, likesCount := previousLikesCount snap\<rparr>)
      in st1\<lparr>isLoading := False\<rparr>)"

text \<open>A stream of taps on the image, with the like requests it sends, in order.\<close>

fun taps :: "uuid \<Rightarrow> int list \<Rightarrow> card_state \<Rightarrow> request list \<times> card_state" where
  "taps post_id [] st = ([], st)"
| "taps post_id (t # ts) st =
     (case handleImageClick post_id t st of
        (None, st1) \<Rightarrow> taps post_id ts st1
      | (Some (snap, req), st1) \<Rightarrow>
          (case taps post_id ts st1 of (reqs, st2) \<Rightarrow> (req # reqs, st2)))"

definition handleCommentAdded :: "comment_with_user \<Rightarrow> card_state \<Rightarrow> card_state" where
  "handleCommentAdded newComment st =
     st\<lparr>commentsCount := commentsCount st + 1,
        commentsPreview := take 2 (newComment # commentsPreview st)\<rparr>"

definition handleCommentDeleted :: "uuid \<Rightarrow> card_state \<Rightarrow> card_state" where
  "handleCommentDeleted commentId st =
     st\<lparr>commentsCount := max 0 (commentsCount st - 1),
        commentsPreview := filter (\<lambda>c. c_id c \<noteq> commentId) (commentsPreview st)\<rparr>"

datatype comment_callback = CommentAdded comment_with_user | CommentDeleted uuid

fun comment_callbacks :: "comment_callback list \<Rightarrow> card_state \<Rightarrow> card_state" where
  "comment_callbacks [] st = st"
| "comment_callbacks (CommentAdded c # evs) st = comment_callbacks evs (handleCommentAdded c st)"
| "comment_callbacks (CommentDeleted i # evs) st = comment_callbacks evs (handleCommentDeleted i st)"

section \<open>What a page holds\<close>

text \<open>The post rows of an answer of \<^verbatim>\<open>GET /api/posts\<close>, in the order of the answer.\<close>

definition returned_posts :: "response \<Rightarrow> post list" where
  "returned_posts r = (case body r of PostsBody ps _ \<Rightarrow> map post.truncate ps | _ \<Rightarrow> [])"



text \<open>
  Two stores hold the same data set when they have the same rows; the order in which
  the storage scans the rows of a table is not part of the data.
\<close>

definition same_rows :: "store \<Rightarrow> store \<Rightarrow> bool" where
  "same_rows s s' =
     (users s' = users s \<and> mset (posts s') = mset (posts s)
      \<and> mset (likes s') = mset (likes s) \<and> mset (comments s') = mset (comments s))"

section \<open>A small data set\<close>

text \<open>Two users, one post of the first, liked by the second.\<close>

definition alice :: user where
  "alice = \<lparr>u_id = ''u-alice'', u_clerk_id = ''clerk_alice'', u_name = ''alice'', u_created_at = 10\<rparr>"

definition bob :: user where
  "bob = \<lparr>u_id = ''u-bob'', u_clerk_id = ''clerk_bob'', u_name = ''bob'', u_created_at = 20\<rparr>"

definition post1 :: post where
  "post1 = \<lparr>p_id = ''p1'', p_user_id = ''u-alice'', p_image_url = ''https://x/1.png'',
            p_caption = Some ''first'', p_created_at = 100, p_updated_at = 100\<rparr>"

definition bobs_like :: like where
  "bobs_like = \<lparr>l_id = ''l-bob'', l_post_id = ''p1'', l_user_id = ''u-bob'', l_created_at = 150\<rparr>"

definition small_store :: store where
  "small_store = \<lparr>users = [alice, bob], posts = [post1], likes = [bobs_like], comments = [],
                   accesses = []\<rparr>"

definition card0 :: card_state where
  "card0 = \<lparr>isLiked = False, likesCount = 7, isAnimating = False, isLoading = False,
            showDoubleTapHeart = False, lastTapTime = 0, commentsCount = 1,
            commentsPreview = []\<rparr>"

text \<open>
  Three comments on the post, with the contents hello, world and an exclamation mark,
  and twelve posts of one user, one per second.
\<close>

definition comment1 :: comment where
  "comment1 = \<lparr>c_id = ''c1'', c_post_id = ''p1'', c_user_id = ''u-bob'', c_content = [104, 101, 108, 108, 111],
               c_created_at = 110, c_updated_at = 110\<rparr>"

definition comment2 :: comment where
  "comment2 = \<lparr>c_id = ''c2'', c_post_id = ''p1'', c_user_id = ''u-alice'', c_content = [119, 111, 114, 108, 100],
               c_created_at = 120, c_updated_at = 120\<rparr>"

definition comment3 :: comment where
  "comment3 = \<lparr>c_id = ''c3'', c_post_id = ''p1'', c_user_id = ''u-bob'', c_content = [33],
               c_created_at = 130, c_updated_at = 130\<rparr>"

definition commented_store :: store where
  "commented_store = small_store\<lparr>comments := [comment1, comment2, comment3]\<rparr>"

definition numbered_post :: "nat \<Rightarrow> post" where
  "numbered_post n =
     \<lparr>p_id = replicate (Suc n) CHR ''p'', p_user_id = ''u-alice'', p_image_url = ''https://x/n.png'',
      p_caption = None, p_created_at = 1000000 * int n, p_updated_at = 1000000 * int n\<rparr>"

definition twelve_posts_store :: store where
  "twelve_posts_store =
     \<lparr>users = [alice, bob], posts = map numbered_post [0..<12], likes = [], comments = [],
      accesses = []\<rparr>"

text \<open>Two posts created at the same instant, scanned in either order.\<close>

definition tied_post_a :: post where
  "tied_post_a = \<lparr>p_id = ''pa'', p_user_id = ''u-alice'', p_image_url = ''https://x/a.png'',
                  p_caption = None, p_created_at = 500, p_updated_at = 500\<rparr>"

definition tied_post_b :: post where
  "tied_post_b = \<lparr>p_id = ''pb'', p_user_id = ''u-bob'', p_image_url = ''https://x/b.png'',
                  p_caption = None, p_created_at = 500, p_updated_at = 500\<rparr>"

definition tied_store :: store where
  "tied_store = \<lparr>users = [alice, bob], posts = [tied_post_a, tied_post_b], likes = [],
                  comments = [], accesses = []\<rparr>"

definition tied_store_rescanned :: store where
  "tied_store_rescanned = tied_store\<lparr>posts := [tied_post_b, tied_post_a]\<rparr>"

text \<open>The post as the feed serves it to an anonymous viewer, and a fourth comment.\<close>

definition served_post :: post_with_details where
  "served_post =
     \<lparr>p_id = ''p1'', p_user_id = ''u-alice'', p_image_url = ''https://x/1.png'',
      p_caption = Some ''first'', p_created_at = 100, p_updated_at = 100,
      pd_user = alice, likes_count = 1, comments_count = 3, is_liked = False,
      comments_preview =
        [\<lparr>c_id = ''c3'', c_post_id = ''p1'', c_user_id = ''u-bob'', c_content = [33],
          c_created_at = 130, c_updated_at = 130, cu_user = bob\<rparr>,
         \<lparr>c_id = ''c2'', c_post_id = ''p1'', c_user_id = ''u-alice'', c_content = [119, 111, 114, 108, 100],
          c_created_at = 120, c_updated_at = 120, cu_user = alice\<rparr>]\<rparr>"


section \<open>Properties of the post card\<close>

lemma commentsCount_handleCommentAdded:
  "commentsCount (handleCommentAdded c st) = commentsCount st + 1"
  by (simp add: handleCommentAdded_def)

lemma commentsCount_handleCommentDeleted:
  "commentsCount (handleCommentDeleted i st) = max 0 (commentsCount st - 1)"
  by (simp add: handleCommentDeleted_def)

text \<open>
  C10. Starting from a non-negative count, the comment count of a card is non-negative
  after every sequence of comment-added and comment-deleted callbacks, also when more
  deletions arrive than there are comments.
\<close>

theorem commentsCount_never_negative:
  "0 \<le> commentsCount st \<Longrightarrow> 0 \<le> commentsCount (comment_callbacks evs st)"
proof (induction evs arbitrary: st)
  case Nil
  then show ?case by simp
next
  case (Cons ev evs)
  show ?case
  proof (cases ev)
    case (CommentAdded c)
    have "0 \<le> commentsCount (handleCommentAdded c st)"
      using Cons.prems by (simp add: commentsCount_handleCommentAdded)
    then show ?thesis
      using Cons.IH CommentAdded by simp
  next
    case (CommentDeleted i)
    have "0 \<le> commentsCount (handleCommentDeleted i st)"
      by (simp add: commentsCount_handleCommentDeleted)
    then show ?thesis
      using Cons.IH CommentDeleted by simp
  qed
qed

theorem commentsCount_never_negative_witness:
  "0 \<le> commentsCount
     (comment_callbacks [CommentDeleted ''c1'', CommentDeleted ''c2'', CommentDeleted ''c3''] card0)"
  using commentsCount_never_negative
    [of card0 "[CommentDeleted ''c1'', CommentDeleted ''c2'', CommentDeleted ''c3'']"]
  by (simp add: card0_def)

text \<open>
  C5. When a like toggle has started and its request fails (the fetch is rejected, or
  the response is not ok and is not the 409 of the add path), the card's \<open>isLiked\<close>
  and \<open>likesCount\<close> are again the values captured before the optimistic update,
  whatever happened to the state while the request was in flight.
\<close>

theorem like_rollback_restores_snapshot:
  assumes started: "handleLikeClick_begin post_id st = Some (snap, req, st1)"
    and failed: "res = Rejected \<or>
                 (\<exists>r. res = Received r \<and> \<not> ok r \<and> \<not> (req = AddLike post_id \<and> status r = 409))"
  shows "isLiked (handleLikeClick_settle snap req res st2) = isLiked st
       \<and> likesCount (handleLikeClick_settle snap req res st2) = likesCount st
       \<and> isLiked (handleLikeClick post_id res st) = isLiked st
       \<and> likesCount (handleLikeClick post_id res st) = likesCount st"
proof -
  from started have snap: "previousIsLiked snap = isLiked st" "previousLikesCount snap = likesCount st"
    and req: "req = (if \<not> isLiked st then AddLike post_id else RemoveLike post_id)"
    by (auto simp: handleLikeClick_begin_def split: if_splits)
  from failed req have throws: "like_request_throws req res"
    by (auto simp: like_request_throws_def split: if_splits)
  have settle: "\<And>s. isLiked (handleLikeClick_settle snap req res s) = isLiked st
       \<and> likesCount (handleLikeClick_settle snap req res s) = likesCount st"
    using throws snap by (simp add: handleLikeClick_settle_def)
  show ?thesis
    using settle started by (simp add: handleLikeClick_def)
qed

theorem like_rollback_restores_snapshot_witness:
  "isLiked (handleLikeClick ''p1'' (Received (Response 500 (ErrorBody ''Failed to add like''))) card0)
     = False
   \<and> likesCount (handleLikeClick ''p1'' (Received (Response 500 (ErrorBody ''Failed to add like''))) card0)
     = 7"
  using like_rollback_restores_snapshot
    [where post_id = "''p1''" and st = card0
       and snap = "\<lparr>previousIsLiked = False, previousLikesCount = 7\<rparr>"
       and req = "AddLike ''p1''"
       and ?st1.0 = "card0\<lparr>isLiked := True, likesCount := 8, isAnimating := True, isLoading := True\<rparr>"
       and res = "Received (Response 500 (ErrorBody ''Failed to add like''))"]
  by (simp add: handleLikeClick_begin_def ok_def card0_def)

text \<open>
  C6. On a card that is neither liked nor waiting for a like request: two taps whose
  distance is strictly between 0 and 300 ms send exactly one add-like request and
  leave the last-tap time reset to 0; two taps more than 300 ms apart, the first of
  which does not itself complete a double-tap, send none.
\<close>

theorem double_tap_likes_once:
  assumes "\<not> isLiked st" and "\<not> isLoading st"
  shows "(0 < second_tap - first_tap \<and> second_tap - first_tap < 300 \<longrightarrow>
            fst (taps post_id [first_tap, second_tap] st) = [AddLike post_id]
          \<and> lastTapTime (snd (taps post_id [first_tap, second_tap] st)) = 0)
       \<and> (300 < second_tap - first_tap
          \<and> \<not> (0 < first_tap - lastTapTime st \<and> first_tap - lastTapTime st < 300) \<longrightarrow>
            fst (taps post_id [first_tap, second_tap] st) = [])"
  using assms by (auto simp: handleImageClick_def Let_def)

theorem double_tap_likes_once_witness:
  "fst (taps ''p1'' [1762000000000, 1762000000200] card0) = [AddLike ''p1'']
   \<and> lastTapTime (snd (taps ''p1'' [1762000000000, 1762000000200] card0)) = 0
   \<and> fst (taps ''p1'' [1762000000000, 1762000000400] card0) = []"
  using double_tap_likes_once
    [where st = card0 and first_tap = 1762000000000 and second_tap = 1762000000200
       and post_id = "''p1''"]
   double_tap_likes_once
    [where st = card0 and first_tap = 1762000000000 and second_tap = 1762000000400
       and post_id = "''p1''"]
  by (simp add: card0_def)

section \<open>Properties of the like handlers\<close>

lemma tables_touch [simp]:
  "users (touch a s) = users s" "posts (touch a s) = posts s"
  "likes (touch a s) = likes s" "comments (touch a s) = comments s"
  by (simp_all add: touch_def)

lemma single_eq_Inr: "(single rows = Inr r) = (rows = [r])"
  by (auto simp: single_def split: list.splits)

lemma single_singleton [simp]: "single [r] = Inr r"
  by (simp add: single_def)

lemma filter_singleton_mem: "filter P xs = [x] \<Longrightarrow> x \<in> set xs \<and> P x"
proof -
  assume "filter P xs = [x]"
  then have "x \<in> set (filter P xs)" by simp
  then show ?thesis by simp
qed

text \<open>What the handlers do once the caller, and for POST the post, are resolved.\<close>

lemma POST_likes_resolved:
  assumes "clerk \<noteq> []" and "post_id \<noteq> []"
    and "filter (\<lambda>u. u_clerk_id u = clerk) (users s) = [userData]"
    and "filter (\<lambda>p. p_id p = post_id) (posts s) = [postData]"
  shows "POST_likes (Some clerk) (Some (Str post_id)) new_id now s =
     (case insert_like \<lparr>l_id = new_id, l_post_id = post_id, l_user_id = u_id userData, l_created_at = now\<rparr>
             (touch (Read Posts) (touch (Read Users) s)) of
        (Inl likeError, s3) \<Rightarrow>
          if code likeError = ''23505''
          then (Response 409 (ErrorBody ''Already liked''), s3)
          else (Response 500 (ErrorBody ''Failed to add like''), s3)
      | (Inr likeData, s3) \<Rightarrow> (Response 200 (LikeBody likeData), s3))"
  using assms
  by (simp add: POST_likes_def authenticated_def nonempty_string_def select_users_def select_posts_def)

lemma DELETE_likes_resolved:
  assumes "clerk \<noteq> []" and "postId \<noteq> []"
    and "filter (\<lambda>u. u_clerk_id u = clerk) (users s) = [userData]"
  shows "DELETE_likes (Some clerk) postId s =
     (case single (filter (\<lambda>l. l_post_id l = postId \<and> l_user_id l = u_id userData) (likes s)) of
        Inl likeCheckError \<Rightarrow>
          (Response 404 (ErrorBody ''Like not found''), touch (Read Likes) (touch (Read Users) s))
      | Inr likeData \<Rightarrow>
          if l_user_id likeData \<noteq> u_id userData
          then (Response 403 (ErrorBody ''Forbidden''), touch (Read Likes) (touch (Read Users) s))
          else (Response 200 SuccessBody,
                delete_likes (\<lambda>l. l_id l = l_id likeData) (touch (Read Likes) (touch (Read Users) s))))"
  using assms
  by (simp add: DELETE_likes_def authenticated_def select_users_def select_likes_def)

lemma count_key_distinct:
  assumes "distinct (map f xs)" and "x \<in> set xs"
  shows "length (filter (\<lambda>y. f y = f x) xs) = 1"
  using assms
proof (induction xs)
  case Nil
  then show ?case by simp
next
  case (Cons a xs)
  show ?case
  proof (cases "a = x")
    case True
    with Cons.prems have "\<forall>y\<in>set xs. f y \<noteq> f x" by (auto simp: image_iff)
    then have "filter (\<lambda>y. f y = f x) xs = []" by (simp add: filter_empty_conv)
    with True show ?thesis by simp
  next
    case False
    with Cons.prems have "x \<in> set xs" "f a \<noteq> f x" by (auto simp: image_iff)
    with Cons show ?thesis by simp
  qed
qed

text \<open>
  C2. For a caller and a post that both resolve, on a table that satisfies its
  unique constraint and does not hold the first generated id: after two add-like
  requests the second has answered 409 and inserted nothing, and the table holds
  exactly one like of that user on that post.
\<close>

theorem addLike_idempotent:
  assumes clerk: "clerk \<noteq> []" and pid: "post_id \<noteq> []"
    and caller: "filter (\<lambda>u. u_clerk_id u = clerk) (users s) = [userData]"
    and target: "filter (\<lambda>p. p_id p = post_id) (posts s) = [postData]"
    and unique: "distinct (map (\<lambda>l. (l_post_id l, l_user_id l)) (likes s))"
    and fresh: "id1 \<notin> set (map l_id (likes s))"
    and first: "POST_likes (Some clerk) (Some (Str post_id)) id1 t1 s = (r1, s1)"
    and second: "POST_likes (Some clerk) (Some (Str post_id)) id2 t2 s1 = (r2, s2)"
  shows "status r2 = 409 \<and> likes s2 = likes s1
       \<and> length (filter (\<lambda>l. l_post_id l = post_id \<and> l_user_id l = u_id userData) (likes s2)) = 1
       \<and> distinct (map (\<lambda>l. (l_post_id l, l_user_id l)) (likes s2))"
proof -
  let ?key = "\<lambda>l. (l_post_id l, l_user_id l)"
  from caller have u_in: "u_id userData \<in> set (map u_id (users s))"
    using filter_singleton_mem[OF caller] by auto
  from target have p_in: "post_id \<in> set (map p_id (posts s))"
    using filter_singleton_mem[OF target] by force
  have tabs1: "users s1 = users s" "posts s1 = posts s"
    using first POST_likes_resolved[OF clerk pid caller target, of id1 t1]
    by (auto simp: insert_like_def Let_def split: if_splits)
  have step1: "(post_id, u_id userData) \<in> set (map ?key (likes s1))
      \<and> distinct (map ?key (likes s1))"
    using first POST_likes_resolved[OF clerk pid caller target, of id1 t1] unique fresh u_in p_in
    by (auto simp: insert_like_def Let_def split: if_splits)
  have caller1: "filter (\<lambda>u. u_clerk_id u = clerk) (users s1) = [userData]"
    and target1: "filter (\<lambda>p. p_id p = post_id) (posts s1) = [postData]"
    using caller target tabs1 by simp_all
  have step2: "status r2 = 409 \<and> likes s2 = likes s1"
    using second POST_likes_resolved[OF clerk pid caller1 target1, of id2 t2] step1
    by (auto simp: insert_like_def Let_def split: if_splits)
  from step1 obtain l where l: "l \<in> set (likes s1)" "?key l = (post_id, u_id userData)"
    by auto
  have "length (filter (\<lambda>y. ?key y = ?key l) (likes s1)) = 1"
    using count_key_distinct[of ?key "likes s1" l] step1 l by simp
  then have "length (filter (\<lambda>l. l_post_id l = post_id \<and> l_user_id l = u_id userData) (likes s1)) = 1"
    using l by simp
  with step1 step2 show ?thesis by simp
qed

theorem addLike_idempotent_witness:
  "status (fst (POST_likes (Some ''clerk_alice'') (Some (Str ''p1'')) ''l-again'' 300
       (snd (POST_likes (Some ''clerk_alice'') (Some (Str ''p1'')) ''l-alice'' 200 small_store)))) = 409
   \<and> length (filter (\<lambda>l. l_post_id l = ''p1'' \<and> l_user_id l = u_id alice)
       (likes (snd (POST_likes (Some ''clerk_alice'') (Some (Str ''p1'')) ''l-again'' 300
       (snd (POST_likes (Some ''clerk_alice'') (Some (Str ''p1'')) ''l-alice'' 200 small_store)))))) = 1"
proof -
  have "status (fst (POST_likes (Some ''clerk_alice'') (Some (Str ''p1'')) ''l-again'' 300
       (snd (POST_likes (Some ''clerk_alice'') (Some (Str ''p1'')) ''l-alice'' 200 small_store)))) = 409
   \<and> likes (snd (POST_likes (Some ''clerk_alice'') (Some (Str ''p1'')) ''l-again'' 300
       (snd (POST_likes (Some ''clerk_alice'') (Some (Str ''p1'')) ''l-alice'' 200 small_store))))
      = likes (snd (POST_likes (Some ''clerk_alice'') (Some (Str ''p1'')) ''l-alice'' 200 small_store))
   \<and> length (filter (\<lambda>l. l_post_id l = ''p1'' \<and> l_user_id l = u_id alice)
       (likes (snd (POST_likes (Some ''clerk_alice'') (Some (Str ''p1'')) ''l-again'' 300
       (snd (POST_likes (Some ''clerk_alice'') (Some (Str ''p1'')) ''l-alice'' 200 small_store)))))) = 1
   \<and> distinct (map (\<lambda>l. (l_post_id l, l_user_id l))
       (likes (snd (POST_likes (Some ''clerk_alice'') (Some (Str ''p1'')) ''l-again'' 300
       (snd (POST_likes (Some ''clerk_alice'') (Some (Str ''p1'')) ''l-alice'' 200 small_store))))))"
    by (rule addLike_idempotent [where s = small_store and postData = post1 and ?id1.0 = "''l-alice''"
          and ?t1.0 = 200 and ?id2.0 = "''l-again''" and ?t2.0 = 300
          and ?r1.0 = "fst (POST_likes (Some ''clerk_alice'') (Some (Str ''p1'')) ''l-alice'' 200 small_store)"
          and ?r2.0 = "fst (POST_likes (Some ''clerk_alice'') (Some (Str ''p1'')) ''l-again'' 300
       (snd (POST_likes (Some ''clerk_alice'') (Some (Str ''p1'')) ''l-alice'' 200 small_store)))"])
       (simp_all add: small_store_def alice_def bob_def bobs_like_def post1_def)
  then show ?thesis by blast
qed

lemma POST_likes_unchanged_or_appended:
  assumes "POST_likes clerkUserId request_body new_id now s = (r, s')"
  shows "(status r \<noteq> 200 \<and> likes s' = likes s)
       \<or> (\<exists>likeData. r = Response 200 (LikeBody likeData) \<and> likes s' = likes s @ [likeData]
             \<and> l_id likeData = new_id \<and> l_created_at likeData = now
             \<and> request_body = Some (Str (l_post_id likeData)))"
  using assms
  by (auto simp: POST_likes_def select_users_def select_posts_def insert_like_def Let_def
        nonempty_string_def
        split: option.splits sum.splits if_splits field.splits)

text \<open>
  C7, as the code has it. The add-like handler never answers 201: a request that
  inserts a like answers 200 with the inserted row, and a request for a like that
  already exists answers 409 and inserts nothing.
\<close>

theorem addLike_created_returns_200:
  assumes run: "POST_likes clerkUserId request_body new_id now s = (r, s')"
  shows "status r \<noteq> 201
       \<and> (likes s' \<noteq> likes s \<longrightarrow>
            (\<exists>likeData. r = Response 200 (LikeBody likeData) \<and> likes s' = likes s @ [likeData]
               \<and> l_id likeData = new_id \<and> l_created_at likeData = now
               \<and> request_body = Some (Str (l_post_id likeData))))
       \<and> (\<forall>clerk post_id userData postData.
            clerkUserId = Some clerk \<and> clerk \<noteq> [] \<and> request_body = Some (Str post_id) \<and> post_id \<noteq> []
            \<and> filter (\<lambda>u. u_clerk_id u = clerk) (users s) = [userData]
            \<and> filter (\<lambda>p. p_id p = post_id) (posts s) = [postData]
            \<and> (post_id, u_id userData) \<in> set (map (\<lambda>l. (l_post_id l, l_user_id l)) (likes s))
            \<longrightarrow> r = Response 409 (ErrorBody ''Already liked'') \<and> likes s' = likes s)"
proof -
  have a: "status r \<noteq> 201"
    using run
    by (auto simp: POST_likes_def select_users_def select_posts_def insert_like_def Let_def
          split: option.splits sum.splits if_splits)
  have b: "likes s' \<noteq> likes s \<longrightarrow>
            (\<exists>likeData. r = Response 200 (LikeBody likeData) \<and> likes s' = likes s @ [likeData]
               \<and> l_id likeData = new_id \<and> l_created_at likeData = now
               \<and> request_body = Some (Str (l_post_id likeData)))"
    using POST_likes_unchanged_or_appended[OF run] by blast
  have c: "r = Response 409 (ErrorBody ''Already liked'') \<and> likes s' = likes s"
    if "clerkUserId = Some clerk" "clerk \<noteq> []" "request_body = Some (Str post_id)" "post_id \<noteq> []"
      "filter (\<lambda>u. u_clerk_id u = clerk) (users s) = [userData]"
      "filter (\<lambda>p. p_id p = post_id) (posts s) = [postData]"
      "(post_id, u_id userData) \<in> set (map (\<lambda>l. (l_post_id l, l_user_id l)) (likes s))"
    for clerk post_id userData postData
    using run that POST_likes_resolved[of clerk post_id s userData postData new_id now]
    by (auto simp: insert_like_def Let_def split: if_splits)
  from a b c show ?thesis by blast
qed

text \<open>The request below creates a like and is answered with status 200.\<close>

theorem addLike_created_returns_200_counterexample:
  "POST_likes (Some ''clerk_alice'') (Some (Str ''p1'')) ''l-alice'' 200 small_store
     = (Response 200
          (LikeBody \<lparr>l_id = ''l-alice'', l_post_id = ''p1'', l_user_id = ''u-alice'', l_created_at = 200\<rparr>),
        small_store\<lparr>likes := [bobs_like,
             \<lparr>l_id = ''l-alice'', l_post_id = ''p1'', l_user_id = ''u-alice'', l_created_at = 200\<rparr>],
           accesses := [Read Users, Read Posts, Write Likes]\<rparr>)"
  by (simp add: POST_likes_def small_store_def alice_def bob_def bobs_like_def post1_def
        authenticated_def nonempty_string_def select_users_def select_posts_def single_def
        insert_like_def touch_def)

theorem addLike_created_returns_200_witness:
  "status (fst (POST_likes (Some ''clerk_alice'') (Some (Str ''p1'')) ''l-alice'' 200 small_store)) \<noteq> 201
   \<and> fst (POST_likes (Some ''clerk_bob'') (Some (Str ''p1'')) ''l-new'' 200 small_store)
       = Response 409 (ErrorBody ''Already liked'')"
proof -
  have created: "likes (snd (POST_likes (Some ''clerk_alice'') (Some (Str ''p1'')) ''l-alice'' 200 small_store))
      \<noteq> likes small_store"
    by (simp add: POST_likes_def small_store_def alice_def bob_def bobs_like_def post1_def
        authenticated_def nonempty_string_def select_users_def select_posts_def single_def
        insert_like_def touch_def)
  have dup: "(''p1'', u_id bob) \<in> set (map (\<lambda>l. (l_post_id l, l_user_id l)) (likes small_store))"
    "filter (\<lambda>u. u_clerk_id u = ''clerk_bob'') (users small_store) = [bob]"
    "filter (\<lambda>p. p_id p = ''p1'') (posts small_store) = [post1]"
    by (simp_all add: small_store_def alice_def bob_def bobs_like_def post1_def)
  show ?thesis
    using created dup
      addLike_created_returns_200
        [of "Some ''clerk_alice''" "Some (Str ''p1'')" "''l-alice''" 200 small_store
            "fst (POST_likes (Some ''clerk_alice'') (Some (Str ''p1'')) ''l-alice'' 200 small_store)"
            "snd (POST_likes (Some ''clerk_alice'') (Some (Str ''p1'')) ''l-alice'' 200 small_store)"]
      addLike_created_returns_200
        [of "Some ''clerk_bob''" "Some (Str ''p1'')" "''l-new''" 200 small_store
            "fst (POST_likes (Some ''clerk_bob'') (Some (Str ''p1'')) ''l-new'' 200 small_store)"
            "snd (POST_likes (Some ''clerk_bob'') (Some (Str ''p1'')) ''l-new'' 200 small_store)"]
    by auto
qed

lemma DELETE_likes_never_403:
  "status (fst (DELETE_likes clerkUserId postId s)) \<noteq> 403"
proof -
  have own: "\<And>P rows (r::like). single (filter P rows) = Inr r \<Longrightarrow> P r"
    using filter_singleton_mem by (fastforce simp: single_eq_Inr)
  show ?thesis
    by (auto simp: DELETE_likes_def select_users_def select_likes_def
          split: option.splits sum.splits dest: own)
qed

text \<open>
  C3, as the code has it. A remove-like request never answers 403. When the caller
  has no like on the post, whoever else has one, the answer is 404 and the table is
  as it was; and on a table with distinct ids no request changes the likes of users
  other than the caller.
\<close>

theorem removeLike_of_another_user:
  assumes run: "DELETE_likes (Some clerk) postId s = (r, s')"
    and clerk: "clerk \<noteq> []" and pid: "postId \<noteq> []"
    and caller: "filter (\<lambda>u. u_clerk_id u = clerk) (users s) = [userData]"
  shows "status r \<noteq> 403
       \<and> (filter (\<lambda>l. l_post_id l = postId \<and> l_user_id l = u_id userData) (likes s) = [] \<longrightarrow>
            r = Response 404 (ErrorBody ''Like not found'') \<and> likes s' = likes s)
       \<and> (distinct (map l_id (likes s)) \<longrightarrow>
            filter (\<lambda>l. l_user_id l \<noteq> u_id userData) (likes s')
              = filter (\<lambda>l. l_user_id l \<noteq> u_id userData) (likes s))"
proof -
  let ?mine = "\<lambda>l. l_post_id l = postId \<and> l_user_id l = u_id userData"
  note unfolded = DELETE_likes_resolved[OF clerk pid caller]
  have a: "status r \<noteq> 403"
    using DELETE_likes_never_403[of "Some clerk" postId s] run by simp
  have b: "filter ?mine (likes s) = [] \<Longrightarrow>
      r = Response 404 (ErrorBody ''Like not found'') \<and> likes s' = likes s"
    using run unfolded by (auto simp: single_def)
  have c: "filter (\<lambda>l. l_user_id l \<noteq> u_id userData) (likes s')
              = filter (\<lambda>l. l_user_id l \<noteq> u_id userData) (likes s)"
    if ids: "distinct (map l_id (likes s))"
  proof (cases "single (filter ?mine (likes s))")
    case (Inl e)
    then show ?thesis using run unfolded by auto
  next
    case (Inr likeData)
    then have one: "filter ?mine (likes s) = [likeData]" by (simp add: single_eq_Inr)
    have mem: "likeData \<in> set (likes s)" and own: "l_user_id likeData = u_id userData"
      using filter_singleton_mem[OF one] by simp_all
    have s': "likes s' = filter (\<lambda>l. l_id l \<noteq> l_id likeData) (likes s)"
      using run unfolded Inr own by (auto simp: delete_likes_def)
    have same: "\<And>l. l \<in> set (likes s) \<Longrightarrow> l_id l = l_id likeData \<Longrightarrow> l = likeData"
      using ids mem by (meson distinct_map inj_onD)
    have "filter (\<lambda>l. l_user_id l \<noteq> u_id userData) (filter (\<lambda>l. l_id l \<noteq> l_id likeData) (likes s))
        = filter (\<lambda>l. l_user_id l \<noteq> u_id userData) (likes s)"
      unfolding filter_filter
      by (rule filter_cong) (use same own in auto)
    with s' show ?thesis by simp
  qed
  from a b c show ?thesis by blast
qed

text \<open>The only like on the post is of another user: the answer is 404, not 403.\<close>

theorem removeLike_of_another_user_counterexample:
  "likes small_store = [bobs_like] \<and> l_post_id bobs_like = ''p1''
   \<and> l_user_id bobs_like \<noteq> u_id alice
   \<and> DELETE_likes (Some ''clerk_alice'') ''p1'' small_store
       = (Response 404 (ErrorBody ''Like not found''),
          small_store\<lparr>accesses := [Read Users, Read Likes]\<rparr>)"
  by (simp add: DELETE_likes_def small_store_def alice_def bob_def bobs_like_def
        authenticated_def select_users_def select_likes_def single_def touch_def)

theorem removeLike_of_another_user_witness:
  "status (fst (DELETE_likes (Some ''clerk_alice'') ''p1'' small_store)) \<noteq> 403
   \<and> fst (DELETE_likes (Some ''clerk_alice'') ''p1'' small_store)
       = Response 404 (ErrorBody ''Like not found'')
   \<and> likes (snd (DELETE_likes (Some ''clerk_alice'') ''p1'' small_store)) = [bobs_like]"
  using removeLike_of_another_user
    [of "''clerk_alice''" "''p1''" small_store
        "fst (DELETE_likes (Some ''clerk_alice'') ''p1'' small_store)"
        "snd (DELETE_likes (Some ''clerk_alice'') ''p1'' small_store)" alice]
  by (simp add: small_store_def alice_def bob_def bobs_like_def)

section \<open>Properties of the feed page handler\<close>

lemma embed_user_touch [simp]: "embed_user (touch a s) = embed_user s"
  by (rule ext) (simp add: embed_user_def)

lemma those_map_Some:
  "those (map f xs) = Some ys \<Longrightarrow> list_all2 (\<lambda>x y. f x = Some y) xs ys"
proof (induction xs arbitrary: ys)
  case Nil
  then show ?case by simp
next
  case (Cons x xs)
  then show ?case by (auto split: option.splits)
qed

lemma those_map_total:
  "(\<And>x. x \<in> set xs \<Longrightarrow> f x \<noteq> None) \<Longrightarrow> those (map f xs) \<noteq> None"
proof (induction xs)
  case Nil
  then show ?case by simp
next
  case (Cons x xs)
  then show ?case by (auto split: option.splits)
qed

text \<open>The queries read the tables and only add to the access log.\<close>

lemma preview_rows_touch [simp]: "preview_rows (touch a s) = preview_rows s"
  by (rule ext) (simp add: preview_rows_def)

lemma page_rows_touch [simp]: "page_rows (touch a s) = page_rows s"
  by (rule ext)+ (simp add: page_rows_def)

lemma preview_query_eq:
  "preview_query postId s =
     (map (\<lambda>c. (c, embed_user s (c_user_id c))) (preview_rows s postId), touch (Read Comments) s)"
  by (simp add: preview_query_def select_comments_def preview_rows_def)

lemma range_rows_valid:
  "0 \<le> off \<Longrightarrow> 0 \<le> lim \<Longrightarrow>
   range_rows off (off + lim - 1) rows = Inr (take (nat lim) (drop (nat off) rows))"
  by (simp add: range_rows_def)

lemma range_rows_refused:
  "off < 0 \<or> lim < 0 \<Longrightarrow> \<exists>e. range_rows off (off + lim - 1) rows = Inl e"
  by (auto simp: range_rows_def)

lemma posts_query_eq:
  "0 \<le> off \<Longrightarrow> 0 \<le> lim \<Longrightarrow>
   posts_query off lim s =
     (Inr (map (\<lambda>p. (p, embed_user s (p_user_id p))) (page_rows s off lim)), touch (Read Posts) s)"
  by (simp add: posts_query_def select_posts_def page_rows_def range_rows_valid)

lemma posts_query_refused:
  "off < 0 \<or> lim < 0 \<Longrightarrow> \<exists>e. posts_query off lim s = (Inl e, touch (Read Posts) s)"
  using range_rows_refused[of off lim "order_created_at_desc p_created_at (posts s)"]
  by (auto simp: posts_query_def select_posts_def)

lemma comments_previews_eq:
  "comments_previews postIds m s =
     ((\<lambda>postId. if postId \<in> set postIds
                then Some (map (\<lambda>c. (c, embed_user s (c_user_id c))) (preview_rows s postId))
                else m postId),
      s\<lparr>accesses := accesses s @ replicate (length postIds) (Read Comments)\<rparr>)"
proof (induction postIds arbitrary: m s)
  case Nil
  then show ?case by simp
next
  case (Cons postId rest)
  have log: "(touch (Read Comments) s)\<lparr>accesses := accesses (touch (Read Comments) s) @ replicate (length rest) (Read Comments)\<rparr>
      = s\<lparr>accesses := accesses s @ replicate (length (postId # rest)) (Read Comments)\<rparr>"
    by (simp add: touch_def)
  show ?case
    unfolding comments_previews.simps preview_query_eq prod.case Cons.IH log
    by (auto simp: fun_eq_iff)
qed

lemma preview_comment_Some:
  "preview_comment row = Some cw \<Longrightarrow> comment.truncate cw = fst row \<and> snd row \<noteq> None"
  by (cases row) (auto simp: preview_comment_def comment.truncate_def split: option.splits)

lemma preview_comments_truncate:
  "those (map preview_comment rows) = Some cws \<Longrightarrow> map comment.truncate cws = map fst rows"
proof -
  assume "those (map preview_comment rows) = Some cws"
  then have "list_all2 (\<lambda>row cw. preview_comment row = Some cw) rows cws"
    by (rule those_map_Some)
  then show ?thesis
    by (induction rule: list_all2_induct) (auto dest: preview_comment_Some)
qed

lemma post_details_Some:
  assumes "post_details lm cm cur ul pm row = Some d"
  shows "post.truncate d = fst row
    \<and> is_liked d = (case cur of None \<Rightarrow> False | Some uid \<Rightarrow> uid \<noteq> [] \<and> p_id (fst row) \<in> set ul)
    \<and> map comment.truncate (comments_preview d)
           = map fst (case pm (p_id (fst row)) of None \<Rightarrow> [] | Some cs \<Rightarrow> cs)"
proof -
  obtain p uo where row: "row = (p, uo)" by (cases row)
  define rows where "rows = (case pm (p_id p) of None \<Rightarrow> [] | Some cs \<Rightarrow> cs)"
  from assms row obtain u where uo: "uo = Some u"
    by (cases uo) (simp_all add: post_details_def)
  from assms row uo obtain preview where
    preview: "those (map preview_comment rows) = Some preview"
    by (cases "those (map preview_comment rows)") (simp_all add: post_details_def Let_def rows_def)
  have d: "d = \<lparr>p_id = p_id p, p_user_id = p_user_id p, p_image_url = p_image_url p,
                        p_caption = p_caption p, p_created_at = p_created_at p,
                        p_updated_at = p_updated_at p,
                        pd_user = \<lparr>u_id = u_id u, u_clerk_id = u_clerk_id u, u_name = u_name u,
                                   u_created_at = u_created_at u\<rparr>,
                        likes_count = (case lm (p_id p) of None \<Rightarrow> 0 | Some n \<Rightarrow> n),
                        comments_count = (case cm (p_id p) of None \<Rightarrow> 0 | Some n \<Rightarrow> n),
                        is_liked = (case cur of
                           None \<Rightarrow> False
                         | Some uid \<Rightarrow> if uid = [] then False else p_id p \<in> set ul),
                        comments_preview = preview\<rparr>"
    using assms row uo preview by (simp add: post_details_def Let_def rows_def)
  have 1: "post.truncate d = p" by (simp add: d post.truncate_def)
  have 2: "is_liked d = (case cur of None \<Rightarrow> False | Some uid \<Rightarrow> uid \<noteq> [] \<and> p_id p \<in> set ul)"
    by (auto simp: d split: option.splits)
  have 3: "map comment.truncate (comments_preview d) = map fst rows"
    using preview_comments_truncate[OF preview] by (simp add: d)
  from 1 2 3 show ?thesis unfolding row rows_def by (simp cong: option.case_cong)
qed

lemma list_all2_map_eq:
  assumes "list_all2 P xs ys" and "\<And>x y. x \<in> set xs \<Longrightarrow> P x y \<Longrightarrow> f y = g x"
  shows "map f ys = map g xs"
  using assms by (induction rule: list_all2_induct) auto

lemma current_user_id_store:
  "snd (current_user_id viewer s) = s \<or> snd (current_user_id viewer s) = touch (Read Users) s"
  by (auto simp: current_user_id_def select_users_def split: option.splits sum.splits)

lemma current_user_id_anonymous:
  "authenticated viewer = None \<Longrightarrow> current_user_id viewer s = (None, s)"
  by (simp add: current_user_id_def)

lemma user_likes_store:
  "snd (user_likes cur postIds s) = s \<or> snd (user_likes cur postIds s) = touch (Read Likes) s"
  by (auto simp: user_likes_def select_likes_def split: option.splits)

text \<open>The handler, with the store threading resolved.\<close>

lemma GET_posts_unfolded:
  "\<exists>lm cm cur ul s'.
     (authenticated viewer = None \<longrightarrow> cur = None)
     \<and> GET_posts viewer limit_param offset_param s =
         (if (case offset_param of None \<Rightarrow> 0 | Some n \<Rightarrow> n) < 0
             \<or> (case limit_param of None \<Rightarrow> 10 | Some n \<Rightarrow> n) < 0
          then Response 500 (ErrorBody ''Failed to fetch posts'')
          else page_response lm cm cur ul s
            (page_with_users s (case offset_param of None \<Rightarrow> 0 | Some n \<Rightarrow> n)
               (case limit_param of None \<Rightarrow> 10 | Some n \<Rightarrow> n)),
          s')"
proof -
  define lim where "lim = (case limit_param of None \<Rightarrow> 10 | Some n \<Rightarrow> n)"
  define off where "off = (case offset_param of None \<Rightarrow> 0 | Some n \<Rightarrow> n)"
  obtain cur s1 where cur: "current_user_id viewer s = (cur, s1)"
    by (cases "current_user_id viewer s")
  have s1: "s1 = s \<or> s1 = touch (Read Users) s"
    using current_user_id_store[of viewer s] cur by simp
  have anon: "authenticated viewer = None \<longrightarrow> cur = None"
    using current_user_id_anonymous[of viewer s] cur by auto
  have embed: "embed_user s1 = embed_user s" and pr: "page_rows s1 = page_rows s"
    and prev: "preview_rows s1 = preview_rows s"
    using s1 by auto
  show ?thesis
  proof (cases "off < 0 \<or> lim < 0")
    case True
    from posts_query_refused[OF True, of s1]
    obtain e where "posts_query off lim s1 = (Inl e, touch (Read Posts) s1)" ..
    then have "GET_posts viewer limit_param offset_param s
        = (Response 500 (ErrorBody ''Failed to fetch posts''), touch (Read Posts) s1)"
      by (simp add: GET_posts_def cur flip: lim_def off_def)
    with anon True have "(authenticated viewer = None \<longrightarrow> cur = None)
       \<and> GET_posts viewer limit_param offset_param s =
         (if off < 0 \<or> lim < 0 then Response 500 (ErrorBody ''Failed to fetch posts'')
          else page_response (\<lambda>x. None) (\<lambda>x. None) cur [] s (page_with_users s off lim),
          touch (Read Posts) s1)"
      by simp
    then show ?thesis
      unfolding lim_def off_def by (intro exI)
  next
    case False
    then have valid: "0 \<le> off" "0 \<le> lim" by simp_all
    define page where "page = page_with_users s off lim"
    define postIds where "postIds = map (\<lambda>row. p_id (fst row)) page"
    have pq: "posts_query off lim s1 = (Inr page, touch (Read Posts) s1)"
      by (simp add: posts_query_eq valid embed pr page_def page_with_users_def)
    define s4 where "s4 = touch (Read Comments) (touch (Read Likes) (touch (Read Posts) s1))"
    obtain ul s5 where ul: "user_likes cur postIds s4 = (ul, s5)"
      by (cases "user_likes cur postIds s4")
    have s5: "s5 = s4 \<or> s5 = touch (Read Likes) s4"
      using user_likes_store[of cur postIds s4] ul by simp
    have embed5: "embed_user s5 = embed_user s" and prev5: "preview_rows s5 = preview_rows s"
      using s5 embed prev by (auto simp: s4_def)
    have pm: "fst (comments_previews postIds Map.empty s5) = previews_of s postIds"
      by (simp add: comments_previews_eq previews_of_def embed5 prev5 cong: if_cong)
    define lm where
      "lm = count_by_post (map l_post_id (filter (\<lambda>l. l_post_id l \<in> set postIds) (likes s1)))"
    define cm where
      "cm = count_by_post (map c_post_id (filter (\<lambda>c. c_post_id c \<in> set postIds) (comments s1)))"
    have "\<exists>s'. GET_posts viewer limit_param offset_param s = (page_response lm cm cur ul s page, s')"
      unfolding page_response_def
      apply (simp add: GET_posts_def cur pq select_likes_def select_comments_def Let_def
            flip: lim_def off_def postIds_def)
      apply (simp add: ul case_prod_beta pm flip: s4_def lm_def cm_def)
      apply (simp split: option.splits)
      done
    then obtain s' where
      "GET_posts viewer limit_param offset_param s = (page_response lm cm cur ul s page, s')" ..
    with anon False have "(authenticated viewer = None \<longrightarrow> cur = None)
       \<and> GET_posts viewer limit_param offset_param s =
         (if off < 0 \<or> lim < 0 then Response 500 (ErrorBody ''Failed to fetch posts'')
          else page_response lm cm cur ul s page, s')"
      by simp
    then show ?thesis
      unfolding page_def lim_def off_def by (intro exI)
  qed
qed

lemma GET_posts_page:
  assumes run: "GET_posts viewer limit_param offset_param s = (Response 200 (PostsBody ps t), s')"
  shows "t = int (length ps)
    \<and> map post.truncate ps
           = page_rows s (case offset_param of None \<Rightarrow> 0 | Some n \<Rightarrow> n)
               (case limit_param of None \<Rightarrow> 10 | Some n \<Rightarrow> n)
    \<and> (authenticated viewer = None \<longrightarrow> (\<forall>d\<in>set ps. \<not> is_liked d))
    \<and> (\<forall>d\<in>set ps. map comment.truncate (comments_preview d) = preview_rows s (p_id d))"
proof -
  let ?lim = "case limit_param of None \<Rightarrow> 10 | Some n \<Rightarrow> n"
  let ?off = "case offset_param of None \<Rightarrow> 0 | Some n \<Rightarrow> n"
  let ?page = "page_with_users s ?off ?lim"
  let ?postIds = "map (\<lambda>row. p_id (fst row)) ?page"
  let ?pm = "previews_of s ?postIds"
  obtain lm cm cur ul s'' where anon: "authenticated viewer = None \<longrightarrow> cur = None"
    and eq0: "GET_posts viewer limit_param offset_param s =
         (if ?off < 0 \<or> ?lim < 0 then Response 500 (ErrorBody ''Failed to fetch posts'')
          else page_response lm cm cur ul s ?page, s'')"
    using GET_posts_unfolded[of viewer limit_param offset_param s]
    by (elim exE conjE) (rule that)
  have valid: "\<not> (?off < 0 \<or> ?lim < 0)"
  proof
    assume "?off < 0 \<or> ?lim < 0"
    then have "GET_posts viewer limit_param offset_param s
        = (Response 500 (ErrorBody ''Failed to fetch posts''), s'')"
      using eq0 by (simp only: if_True)
    with run show False by simp
  qed
  have eq: "GET_posts viewer limit_param offset_param s = (page_response lm cm cur ul s ?page, s'')"
    using eq0 valid by (simp only: if_False)
  have page_fst: "map fst ?page = page_rows s ?off ?lim"
    by (simp add: page_with_users_def comp_def)
  show ?thesis
  proof (cases "?page = []")
    case True
    then have "ps = []" "t = 0"
      using run eq by (simp_all add: page_response_def)
    moreover have "page_rows s ?off ?lim = []" using True page_fst by simp
    ultimately show ?thesis by simp
  next
    case False
    have those: "those (map (post_details lm cm cur ul ?pm) ?page) = Some ps" and t: "t = int (length ps)"
      using run eq False by (auto simp: page_response_def split: option.splits)
    from those have rel: "list_all2 (\<lambda>row d. post_details lm cm cur ul ?pm row = Some d) ?page ps"
      by (rule those_map_Some)
    have each: "post.truncate d = fst row
        \<and> (cur = None \<longrightarrow> \<not> is_liked d)
        \<and> map comment.truncate (comments_preview d) = preview_rows s (p_id d)"
      if row: "row \<in> set ?page" and d: "post_details lm cm cur ul ?pm row = Some d" for row d
    proof -
      note facts = post_details_Some[OF d]
      have pid: "p_id d = p_id (fst row)"
        using facts by (metis post.truncate_def post.select_convs(1) post.simps(1) ext_inject)
      have "p_id (fst row) \<in> set ?postIds"
        using row by simp
      then have "?pm (p_id (fst row))
          = Some (map (\<lambda>c. (c, embed_user s (c_user_id c))) (preview_rows s (p_id (fst row))))"
        unfolding previews_of_def by (rule if_P)
      then have "map comment.truncate (comments_preview d) = preview_rows s (p_id (fst row))"
        using facts by (simp add: comp_def)
      with facts pid show ?thesis by simp
    qed
    have trunc: "map post.truncate ps = map fst ?page"
      using rel by (rule list_all2_map_eq) (use each in blast)
    have every: "(cur = None \<longrightarrow> \<not> is_liked d)
        \<and> map comment.truncate (comments_preview d) = preview_rows s (p_id d)"
      if "d \<in> set ps" for d
    proof -
      from rel have "length ?page = length ps"
        by (rule list_all2_lengthD)
      with that obtain row where "(row, d) \<in> set (zip ?page ps)"
        by (metis in_set_impl_in_set_zip2)
      then have "row \<in> set ?page" "post_details lm cm cur ul ?pm row = Some d"
        using rel by (auto simp: list_all2_iff dest: set_zip_leftD)
      then show ?thesis using each by blast
    qed
    from t trunc page_fst every anon show ?thesis
      by simp
  qed
qed

lemma set_page_rows: "set (page_rows s from_row page_size) \<subseteq> set (posts s)"
proof -
  let ?sorted = "order_created_at_desc p_created_at (posts s)"
  have "set (page_rows s from_row page_size) \<subseteq> set (drop (nat from_row) ?sorted)"
    unfolding page_rows_def by (rule set_take_subset)
  also have "\<dots> \<subseteq> set ?sorted"
    by (rule set_drop_subset)
  also have "\<dots> = set (posts s)"
    by (simp add: order_created_at_desc_def)
  finally show ?thesis .
qed

lemma set_preview_rows:
  "set (preview_rows s postId) \<subseteq> {c \<in> set (comments s). c_post_id c = postId}"
proof -
  have "set (preview_rows s postId)
      \<subseteq> set (order_created_at_desc c_created_at (filter (\<lambda>c. c_post_id c = postId) (comments s)))"
    unfolding preview_rows_def by (rule set_take_subset)
  then show ?thesis by (auto simp: order_created_at_desc_def)
qed

lemma post_details_total:
  assumes "snd row \<noteq> None"
    and "\<And>r. r \<in> set (case pm (p_id (fst row)) of None \<Rightarrow> [] | Some cs \<Rightarrow> cs) \<Longrightarrow> snd r \<noteq> None"
  shows "post_details lm cm cur ul pm row \<noteq> None"
proof -
  obtain p u where row: "row = (p, Some u)"
    using assms(1) by (cases row) auto
  have "those (map preview_comment (case pm (p_id p) of None \<Rightarrow> [] | Some cs \<Rightarrow> cs)) \<noteq> None"
  proof (rule those_map_total)
    fix r assume "r \<in> set (case pm (p_id p) of None \<Rightarrow> [] | Some cs \<Rightarrow> cs)"
    then have "snd r \<noteq> None" using assms(2) row by simp
    then show "preview_comment r \<noteq> None"
      by (cases r) (auto simp: preview_comment_def)
  qed
  then show ?thesis
    by (auto simp: row post_details_def Let_def)
qed

text \<open>
  With the two foreign keys to \<^verbatim>\<open>users\<close> intact and a range the storage accepts, the
  handler answers 200.
\<close>

lemma GET_posts_total:
  assumes fk_posts: "\<forall>p\<in>set (posts s). embed_user s (p_user_id p) \<noteq> None"
    and fk_comments: "\<forall>c\<in>set (comments s). embed_user s (c_user_id c) \<noteq> None"
    and valid: "0 \<le> (case offset_param of None \<Rightarrow> 0 | Some n \<Rightarrow> n)"
      "0 \<le> (case limit_param of None \<Rightarrow> 10 | Some n \<Rightarrow> n)"
  shows "\<exists>ps s'. GET_posts viewer limit_param offset_param s
           = (Response 200 (PostsBody ps (int (length ps))), s')"
proof -
  let ?lim = "case limit_param of None \<Rightarrow> 10 | Some n \<Rightarrow> n"
  let ?off = "case offset_param of None \<Rightarrow> 0 | Some n \<Rightarrow> n"
  let ?page = "page_with_users s ?off ?lim"
  let ?postIds = "map (\<lambda>row. p_id (fst row)) ?page"
  let ?pm = "previews_of s ?postIds"
  obtain lm cm cur ul s'' where
    eq0: "GET_posts viewer limit_param offset_param s =
         (if ?off < 0 \<or> ?lim < 0 then Response 500 (ErrorBody ''Failed to fetch posts'')
          else page_response lm cm cur ul s ?page, s'')"
    using GET_posts_unfolded[of viewer limit_param offset_param s]
    by (elim exE conjE) (rule that)
  have "\<not> (?off < 0 \<or> ?lim < 0)"
    using valid by simp
  then have eq: "GET_posts viewer limit_param offset_param s = (page_response lm cm cur ul s ?page, s'')"
    using eq0 by (simp only: if_False)
  have "those (map (post_details lm cm cur ul ?pm) ?page) \<noteq> None"
  proof (rule those_map_total)
    fix row assume row: "row \<in> set ?page"
    then obtain p where p: "p \<in> set (posts s)" "row = (p, embed_user s (p_user_id p))"
      using set_page_rows[of s ?off ?lim] by (auto simp: page_with_users_def)
    show "post_details lm cm cur ul ?pm row \<noteq> None"
    proof (rule post_details_total)
      show "snd row \<noteq> None" using p fk_posts by simp
    next
      fix r assume r: "r \<in> set (case ?pm (p_id (fst row)) of None \<Rightarrow> [] | Some cs \<Rightarrow> cs)"
      have "p_id (fst row) \<in> set ?postIds"
        using row by simp
      then have "?pm (p_id (fst row))
          = Some (map (\<lambda>c. (c, embed_user s (c_user_id c))) (preview_rows s (p_id (fst row))))"
        unfolding previews_of_def by (rule if_P)
      with r obtain c where c: "c \<in> set (preview_rows s (p_id (fst row)))"
          "r = (c, embed_user s (c_user_id c))"
        by auto
      from c(1) have "c \<in> set (comments s)"
        using set_preview_rows[of s "p_id (fst row)"] by blast
      with c(2) have "c \<in> set (comments s)" "r = (c, embed_user s (c_user_id c))"
        by simp_all
      then show "snd r \<noteq> None" using fk_comments by simp
    qed
  qed
  then obtain ps where "those (map (post_details lm cm cur ul ?pm) ?page) = Some ps"
    by auto
  then show ?thesis
    using eq by (cases "?page = []") (auto simp: page_response_def)
qed

section \<open>The anonymous viewer\<close>

text \<open>The feed handler on the two example stores, for a viewer who is not signed in.\<close>

lemma GET_small_store:
  "GET_posts None None None small_store =
     (Response 200 (PostsBody
        [\<lparr>p_id = ''p1'', p_user_id = ''u-alice'', p_image_url = ''https://x/1.png'',
          p_caption = Some ''first'', p_created_at = 100, p_updated_at = 100,
          pd_user = alice, likes_count = 1, comments_count = 0, is_liked = False,
          comments_preview = []\<rparr>] 1),
      small_store\<lparr>accesses := [Read Posts, Read Likes, Read Comments, Read Comments]\<rparr>)"
  by (simp add: GET_posts_def current_user_id_def authenticated_def posts_query_def select_posts_def
      order_created_at_desc_def range_rows_def embed_user_def select_likes_def select_comments_def
      user_likes_def preview_query_def count_by_post_def post_details_def preview_comment_def
      small_store_def alice_def bob_def post1_def bobs_like_def touch_def Let_def)

lemma GET_commented_store:
  "GET_posts None None None commented_store =
     (Response 200 (PostsBody [served_post] 1),
      commented_store\<lparr>accesses := [Read Posts, Read Likes, Read Comments, Read Comments]\<rparr>)"
  by (simp add: GET_posts_def current_user_id_def authenticated_def posts_query_def select_posts_def
      order_created_at_desc_def range_rows_def embed_user_def select_likes_def select_comments_def
      user_likes_def preview_query_def count_by_post_def post_details_def preview_comment_def
      commented_store_def small_store_def alice_def bob_def post1_def bobs_like_def touch_def Let_def
      comment1_def comment2_def comment3_def served_post_def)

text \<open>
  C8. Without a signed-in caller, the add-like and add-comment handlers answer 401 and
  return the store as it was, with no access recorded, and every post of a page served
  by the feed handler has \<open>is_liked = False\<close>.
\<close>

theorem anonymous_viewer:
  "status (fst (POST_likes None like_body new_id now s)) = 401
   \<and> snd (POST_likes None like_body new_id now s) = s
   \<and> status (fst (POST_comments None comment_body new_id now s)) = 401
   \<and> snd (POST_comments None comment_body new_id now s) = s
   \<and> (\<forall>ps t s'. GET_posts None limit_param offset_param s = (Response 200 (PostsBody ps t), s')
         \<longrightarrow> (\<forall>d\<in>set ps. \<not> is_liked d))"
proof -
  have anon: "authenticated None = None"
    by (simp add: authenticated_def)
  have "\<forall>d\<in>set ps. \<not> is_liked d"
    if "GET_posts None limit_param offset_param s = (Response 200 (PostsBody ps t), s')" for ps t s'
    using GET_posts_page[OF that] anon by blast
  then show ?thesis
    by (simp add: POST_likes_def POST_comments_def anon)
qed

theorem anonymous_viewer_witness:
  "status (fst (POST_likes None (Some (Str ''p1'')) ''id-new'' 200 commented_store)) = 401
   \<and> snd (POST_likes None (Some (Str ''p1'')) ''id-new'' 200 commented_store) = commented_store
   \<and> status (fst (POST_comments None (Some (Str ''p1'', Str [104, 105])) ''id-new'' 200 commented_store)) = 401
   \<and> snd (POST_comments None (Some (Str ''p1'', Str [104, 105])) ''id-new'' 200 commented_store)
       = commented_store
   \<and> fst (GET_posts None None None commented_store) = Response 200 (PostsBody [served_post] 1)
   \<and> \<not> is_liked served_post"
  using anonymous_viewer
    [where s = commented_store and limit_param = None and offset_param = None
       and like_body = "Some (Str ''p1'')" and comment_body = "Some (Str ''p1'', Str [104, 105])"
       and new_id = "''id-new''" and now = 200]
    GET_commented_store
  by simp

section \<open>The end-of-data flag of the feed\<close>

lemma fetchPosts_settle_page:
  assumes "0 \<le> currentOffset"
  shows "hasMore (fetchPosts_settle currentOffset is_append
            (Received (Response 200 (PostsBody ps (int (length ps))))) f) = False
       \<and> feed_posts (fetchPosts_settle currentOffset is_append
            (Received (Response 200 (PostsBody ps (int (length ps))))) f)
           = (if is_append then feed_posts f @ ps else ps)"
  using assms
  by (cases "ps = []") (simp_all add: fetchPosts_settle_def read_page_def ok_def Let_def POSTS_PER_PAGE_def)

lemma length_page_rows:
  "0 \<le> from_row \<Longrightarrow> 0 \<le> page_size \<Longrightarrow>
   length (page_rows s from_row page_size) = min (nat page_size) (length (posts s) - nat from_row)"
  by (simp add: page_rows_def order_created_at_desc_def)

lemma embed_user_alice_bob:
  "users s = [alice, bob] \<Longrightarrow> embed_user s ''u-alice'' \<noteq> None \<and> embed_user s ''u-bob'' \<noteq> None"
  by (simp add: embed_user_def alice_def bob_def)

text \<open>
  C1, where the code departs from it. The handler sets \<^verbatim>\<open>total\<close> to the number of posts
  of the page, and the feed keeps \<open>hasMore\<close> only while \<open>newOffset < total\<close>, which
  no page satisfies. With twelve posts stored, the first fetch returns ten posts, as
  many as it asked for, and leaves \<open>hasMore = False\<close>.
\<close>

theorem full_first_page_ends_feed:
  "length (posts twelve_posts_store) = 12
   \<and> length (feed_posts (fst (fetchPosts None 0 False twelve_posts_store PostFeed))) = 10
   \<and> hasMore (fst (fetchPosts None 0 False twelve_posts_store PostFeed)) = False"
proof -
  let ?s = twelve_posts_store
  have fk_posts: "\<forall>p\<in>set (posts ?s). embed_user ?s (p_user_id p) \<noteq> None"
    using embed_user_alice_bob[of ?s]
    by (auto simp: twelve_posts_store_def numbered_post_def)
  have fk_comments: "\<forall>c\<in>set (comments ?s). embed_user ?s (c_user_id c) \<noteq> None"
    by (simp add: twelve_posts_store_def)
  obtain ps s' where
    get: "GET_posts None (Some POSTS_PER_PAGE) (Some 0) ?s = (Response 200 (PostsBody ps (int (length ps))), s')"
    using GET_posts_total[OF fk_posts fk_comments, of "Some 0" "Some POSTS_PER_PAGE" None]
    by (auto simp: POSTS_PER_PAGE_def)
  have n: "length (posts ?s) = 12"
    by (simp add: twelve_posts_store_def)
  have "map post.truncate ps = page_rows ?s 0 10"
    using GET_posts_page[OF get] by (simp add: POSTS_PER_PAGE_def)
  then have "length ps = length (page_rows ?s 0 10)"
    by (metis length_map)
  then have len: "length ps = 10"
    by (simp add: length_page_rows n)
  have "fst (fetchPosts None 0 False ?s PostFeed)
      = fetchPosts_settle 0 False (Received (Response 200 (PostsBody ps (int (length ps)))))
          (fetchPosts_begin False PostFeed)"
    by (simp add: fetchPosts_def get)
  then show ?thesis
    using fetchPosts_settle_page[of 0 False ps "fetchPosts_begin False PostFeed"] len n by simp
qed

section \<open>Pages of the feed\<close>

lemma order_created_at_desc_scan:
  assumes "mset xs = mset ys" and "distinct (map created_at xs)"
  shows "order_created_at_desc created_at xs = order_created_at_desc created_at ys"
proof -
  let ?f = "\<lambda>r. - created_at r"
  have inj: "inj_on ?f (set xs)"
    using assms(2) by (auto simp: distinct_map inj_on_def)
  have "mset xs = mset (sort_key ?f ys)"
    using assms(1) by simp
  moreover note inj
  moreover have "sorted (map ?f (sort_key ?f ys))"
    by (rule sorted_sort_key)
  ultimately have "sort_key ?f xs = sort_key ?f ys"
    by (rule sort_key_inj_key_eq)
  then show ?thesis
    by (simp add: order_created_at_desc_def)
qed

lemma sorted_order_created_at_desc:
  "sorted_wrt (\<lambda>a b. created_at b \<le> created_at a) (order_created_at_desc created_at xs)"
proof -
  have "sorted (map (\<lambda>r. - created_at r) (sort_key (\<lambda>r. - created_at r) xs))"
    by (rule sorted_sort_key)
  then show ?thesis
    by (simp add: order_created_at_desc_def sorted_map)
qed

lemma sorted_wrt_take_drop:
  "sorted_wrt R xs \<Longrightarrow> sorted_wrt R (take n (drop m xs))"
  by (simp add: sorted_wrt_drop sorted_wrt_take)

lemma concat_pages:
  "concat (map (\<lambda>k. take l (drop (k * l) xs)) [0..<n]) = take (n * l) xs"
proof (induction n)
  case 0
  then show ?case by simp
next
  case (Suc n)
  have "take (n * l + l) xs = take (n * l) xs @ take l (drop (n * l) xs)"
    by (rule take_add)
  moreover have "Suc n * l = n * l + l"
    by simp
  ultimately have "take (Suc n * l) xs = take (n * l) xs @ take l (drop (n * l) xs)"
    by (simp only:)
  with Suc show ?case by (simp del: mult_Suc)
qed

lemma page_rows_nth_page:
  "1 \<le> lim \<Longrightarrow> page_rows s (int k * lim) lim
     = take (nat lim) (drop (k * nat lim) (order_created_at_desc p_created_at (posts s)))"
  by (simp add: page_rows_def nat_mult_distrib)

lemma same_rows_embed_user: "same_rows s s' \<Longrightarrow> embed_user s' = embed_user s"
  by (rule ext) (simp add: same_rows_def embed_user_def)

lemma same_rows_sets:
  "same_rows s s' \<Longrightarrow> set (posts s') = set (posts s) \<and> set (comments s') = set (comments s)"
  by (auto simp: same_rows_def dest: mset_eq_setD)

lemma returned_posts_GET:
  assumes fk_posts: "\<forall>p\<in>set (posts s). embed_user s (p_user_id p) \<noteq> None"
    and fk_comments: "\<forall>c\<in>set (comments s). embed_user s (c_user_id c) \<noteq> None"
    and valid: "0 \<le> off" "0 \<le> lim"
  shows "status (fst (GET_posts viewer (Some lim) (Some off) s)) = 200
       \<and> returned_posts (fst (GET_posts viewer (Some lim) (Some off) s)) = page_rows s off lim"
proof -
  obtain ps s' where
    get: "GET_posts viewer (Some lim) (Some off) s = (Response 200 (PostsBody ps (int (length ps))), s')"
    using GET_posts_total[OF fk_posts fk_comments, of "Some off" "Some lim" viewer] valid by auto
  have "map post.truncate ps = page_rows s off lim"
    using GET_posts_page[OF get] by simp
  then show ?thesis
    by (simp add: get returned_posts_def)
qed

text \<open>
  C4, as the code has it. With the foreign keys to \<^verbatim>\<open>users\<close> intact and
  \<open>0 \<le> offset\<close>, \<open>1 \<le> limit\<close>, the handler answers 200 with the posts at the
  positions \<open>offset\<close> to \<open>offset + limit - 1\<close> of the table ordered by descending
  creation time: at most \<open>limit\<close> posts, newest first. The order has no second key.
  When the creation times of the posts are pairwise distinct, consecutive pages
  concatenate to the whole table, newest first, each post once, in whatever order
  the storage scans the rows for each page.
\<close>

theorem getPage_pages:
  assumes fk_posts: "\<forall>p\<in>set (posts s). embed_user s (p_user_id p) \<noteq> None"
    and fk_comments: "\<forall>c\<in>set (comments s). embed_user s (c_user_id c) \<noteq> None"
    and valid: "0 \<le> off" "1 \<le> lim"
  shows "status (fst (GET_posts viewer (Some lim) (Some off) s)) = 200
    \<and> returned_posts (fst (GET_posts viewer (Some lim) (Some off) s))
        = take (nat lim) (drop (nat off) (order_created_at_desc p_created_at (posts s)))
    \<and> length (returned_posts (fst (GET_posts viewer (Some lim) (Some off) s))) \<le> nat lim
    \<and> sorted_wrt (\<lambda>p q. p_created_at q \<le> p_created_at p)
        (returned_posts (fst (GET_posts viewer (Some lim) (Some off) s)))
    \<and> (distinct (map p_created_at (posts s)) \<and> (\<forall>k<n. same_rows s (scans k))
         \<and> length (posts s) \<le> n * nat lim \<longrightarrow>
        concat (map (\<lambda>k. returned_posts
                      (fst (GET_posts viewer (Some lim) (Some (int k * lim)) (scans k)))) [0..<n])
          = order_created_at_desc p_created_at (posts s)
        \<and> distinct (order_created_at_desc p_created_at (posts s))
        \<and> set (order_created_at_desc p_created_at (posts s)) = set (posts s))"
proof -
  let ?all = "order_created_at_desc p_created_at (posts s)"
  let ?page = "returned_posts (fst (GET_posts viewer (Some lim) (Some off) s))"
  have page: "status (fst (GET_posts viewer (Some lim) (Some off) s)) = 200"
    "?page = take (nat lim) (drop (nat off) ?all)"
    using returned_posts_GET[OF fk_posts fk_comments, of off lim viewer] valid
    by (simp_all add: page_rows_def)
  have len: "length ?page \<le> nat lim"
    by (simp add: page(2))
  have desc: "sorted_wrt (\<lambda>p q. p_created_at q \<le> p_created_at p) ?page"
    unfolding page(2) by (rule sorted_wrt_take_drop) (rule sorted_order_created_at_desc)
  have pages: "concat (map (\<lambda>k. returned_posts
                      (fst (GET_posts viewer (Some lim) (Some (int k * lim)) (scans k)))) [0..<n])
          = ?all
        \<and> distinct ?all \<and> set ?all = set (posts s)"
    if times: "distinct (map p_created_at (posts s))" and scans: "\<forall>k<n. same_rows s (scans k)"
      and enough: "length (posts s) \<le> n * nat lim"
  proof -
    have one: "returned_posts (fst (GET_posts viewer (Some lim) (Some (int k * lim)) (scans k)))
        = take (nat lim) (drop (k * nat lim) ?all)" if k: "k < n" for k
    proof -
      from scans k have same: "same_rows s (scans k)" by simp
      have fk_posts': "\<forall>p\<in>set (posts (scans k)). embed_user (scans k) (p_user_id p) \<noteq> None"
        using fk_posts same_rows_embed_user[OF same] same_rows_sets[OF same] by simp
      have fk_comments': "\<forall>c\<in>set (comments (scans k)). embed_user (scans k) (c_user_id c) \<noteq> None"
        using fk_comments same_rows_embed_user[OF same] same_rows_sets[OF same] by simp
      have "order_created_at_desc p_created_at (posts s)
          = order_created_at_desc p_created_at (posts (scans k))"
        using same times by (intro order_created_at_desc_scan) (simp_all add: same_rows_def)
      then show ?thesis
        using returned_posts_GET[OF fk_posts' fk_comments', of "int k * lim" lim viewer] valid(2)
        by (simp add: page_rows_nth_page)
    qed
    have "concat (map (\<lambda>k. returned_posts
                      (fst (GET_posts viewer (Some lim) (Some (int k * lim)) (scans k)))) [0..<n])
        = concat (map (\<lambda>k. take (nat lim) (drop (k * nat lim) ?all)) [0..<n])"
      using one by (intro arg_cong[where f = concat] map_cong) simp_all
    also have "\<dots> = take (n * nat lim) ?all"
      by (rule concat_pages)
    also have "\<dots> = ?all"
      using enough by (simp add: order_created_at_desc_def)
    finally have "concat (map (\<lambda>k. returned_posts
                      (fst (GET_posts viewer (Some lim) (Some (int k * lim)) (scans k)))) [0..<n])
        = ?all" .
    moreover have "distinct ?all"
      using times by (simp add: order_created_at_desc_def distinct_map)
    moreover have "set ?all = set (posts s)"
      by (simp add: order_created_at_desc_def)
    ultimately show ?thesis by simp
  qed
  from page len desc pages show ?thesis by blast
qed

theorem getPage_pages_witness:
  "status (fst (GET_posts None (Some 5) (Some 0) twelve_posts_store)) = 200
   \<and> length (returned_posts (fst (GET_posts None (Some 5) (Some 0) twelve_posts_store))) \<le> 5
   \<and> concat (map (\<lambda>k. returned_posts
        (fst (GET_posts None (Some 5) (Some (int k * 5))
               (if k = 1 then twelve_posts_store\<lparr>posts := rev (posts twelve_posts_store)\<rparr>
                else twelve_posts_store)))) [0..<3])
       = order_created_at_desc p_created_at (posts twelve_posts_store)"
proof -
  let ?s = twelve_posts_store
  let ?scans = "\<lambda>k::nat. if k = 1 then ?s\<lparr>posts := rev (posts ?s)\<rparr> else ?s"
  have fk_posts: "\<forall>p\<in>set (posts ?s). embed_user ?s (p_user_id p) \<noteq> None"
    using embed_user_alice_bob[of ?s]
    by (auto simp: twelve_posts_store_def numbered_post_def)
  have fk_comments: "\<forall>c\<in>set (comments ?s). embed_user ?s (c_user_id c) \<noteq> None"
    by (simp add: twelve_posts_store_def)
  have times: "distinct (map p_created_at (posts ?s))"
    by (simp add: twelve_posts_store_def distinct_map inj_on_def numbered_post_def comp_def)
  have scans: "\<forall>k<3. same_rows ?s (?scans k)"
    by (simp add: same_rows_def)
  have enough: "length (posts ?s) \<le> 3 * nat 5"
    by (simp add: twelve_posts_store_def)
  show ?thesis
    using getPage_pages[OF fk_posts fk_comments, of 0 5 None 3 ?scans] times scans enough
    by simp
qed

text \<open>
  Two posts with the same creation time, and one data set scanned in two orders: the
  first page of size 1 and the second page of size 1 both hold the same post.
\<close>

theorem getPage_pages_counterexample:
  "same_rows tied_store tied_store_rescanned
   \<and> returned_posts (fst (GET_posts None (Some 1) (Some 0) tied_store)) = [tied_post_a]
   \<and> returned_posts (fst (GET_posts None (Some 1) (Some 1) tied_store_rescanned)) = [tied_post_a]"
proof -
  have fk: "\<forall>p\<in>set (posts tied_store). embed_user tied_store (p_user_id p) \<noteq> None"
    "\<forall>c\<in>set (comments tied_store). embed_user tied_store (c_user_id c) \<noteq> None"
    "\<forall>p\<in>set (posts tied_store_rescanned). embed_user tied_store_rescanned (p_user_id p) \<noteq> None"
    "\<forall>c\<in>set (comments tied_store_rescanned). embed_user tied_store_rescanned (c_user_id c) \<noteq> None"
    by (simp_all add: tied_store_def tied_store_rescanned_def tied_post_a_def tied_post_b_def
          embed_user_def alice_def bob_def)
  have "same_rows tied_store tied_store_rescanned"
    by (simp add: same_rows_def tied_store_def tied_store_rescanned_def)
  moreover have "returned_posts (fst (GET_posts None (Some 1) (Some 0) tied_store)) = [tied_post_a]"
    using returned_posts_GET[OF fk(1,2), of 0 1 None]
    by (simp add: page_rows_def order_created_at_desc_def tied_store_def tied_post_a_def tied_post_b_def)
  moreover have "returned_posts (fst (GET_posts None (Some 1) (Some 1) tied_store_rescanned)) = [tied_post_a]"
    using returned_posts_GET[OF fk(3,4), of 1 1 None]
    by (simp add: page_rows_def order_created_at_desc_def tied_store_def tied_store_rescanned_def
          tied_post_a_def tied_post_b_def)
  ultimately show ?thesis by simp
qed

section \<open>The comment preview\<close>





lemma c_id_truncate [simp]: "c_id (comment.truncate c) = c_id c"
  by (simp add: comment.truncate_def)


text \<open>
  The comment a 201 answer carries, which the comment form hands to
  \<^verbatim>\<open>handleCommentAdded\<close>, is the row just appended to the table, with the generated id
  and creation time.
\<close>

lemma POST_comments_created:
  assumes "POST_comments clerkUserId request_body new_id now s = (Response 201 (CommentBody c uo), s')"
  shows "comments s' = comments s @ [c] \<and> c \<notin> set (comments s)
       \<and> c_id c = new_id \<and> c_created_at c = now"
proof -
  have fresh: "filter (\<lambda>c. c_id c = i) cs = []" if "i \<notin> c_id ` set cs" for i and cs :: "comment list"
    using that by (auto simp: filter_empty_conv)
  have mem: "c_id r \<in> c_id ` set cs" if "r \<in> set cs" for r and cs :: "comment list"
    using that by simp
  show ?thesis
    using assms
    apply (auto simp: POST_comments_def select_users_def select_posts_def select_comments_def
          insert_comment_def Let_def fresh
        split: option.splits sum.splits if_splits prod.splits)
    apply (drule mem)
    apply simp
    done
qed








end
